theory Spec2Isabelle
  imports Main "HOL-Library.Sublist" "HOL-Library.AList"
begin

section \<open>The file system seen by \<open>filetool.py\<close>\<close>

text \<open>
  The library is that of Python 3.11 on Linux. Every Python \<open>str\<close> is represented by
  its UTF-8 encoding, a HOL \<open>string\<close> whose characters are bytes (a \<open>str\<close> with a
  lone surrogate has no encoding and no representation). ASCII text is its own
  encoding, so path separators, \<open>.\<close> and \<open>..\<close> are the usual characters; the Chinese
  literals of the source are written out as the bytes of their encoding, and
  \<open>content.encode('utf-8')\<close> leaves the representation as it is.

  The file system is a tree. A directory lists its entries in the order a scan returns
  them; a lookup takes the first entry of a name. A node is identified by the path that
  leads to it without crossing a symbolic link (there are no hard links), which is what
  the device and inode pair of \<open>os.stat\<close> is compared for. Every walk is permitted:
  access rights are not modelled. The limits are those of Linux: a name of more than 255
  bytes and a path string of more than 4095 bytes are refused with \<open>ENAMETOOLONG\<close>, and
  one walk expands at most \<open>fs_maxlinks\<close> symbolic links before it answers \<open>ELOOP\<close>.
  The names in a directory are what a file system can hold: not empty, not \<open>.\<close> or
  \<open>..\<close>, without a slash or a NUL byte. The depth of Python's call stack is not
  bounded.
\<close>

datatype node = File string | Symlink string | Dir "(string \<times> node) list"

type_synonym path = "string list"

datatype errno = ENOENT | ENOTDIR | EEXIST | EISDIR | ELOOP | ENAMETOOLONG

text \<open>
  The exceptions that reach the source. \<open>RuntimeError\<close>, \<open>ValueError\<close> and
  \<open>UnicodeDecodeError\<close> carry their message, \<open>OSError\<close> its error number and file name.
\<close>

datatype exn =
    OSError errno string
  | RuntimeError string
  | ValueError string
  | UnicodeDecodeError string

text \<open>\<open>fs_tree\<close> is the node of \<open>/\<close>; \<open>fs_maxlinks\<close> is 40 on Linux.\<close>

record filesystem =
  fs_tree :: node
  fs_maxlinks :: nat

record FileTool =
  root_path :: path
  current_dir :: path

subsection \<open>Path strings\<close>

fun split_sep :: "string \<Rightarrow> string list" where
  "split_sep [] = [[]]"
| "split_sep (c # cs) =
     (if c = CHR ''/'' then [] # split_sep cs
      else (case split_sep cs of [] \<Rightarrow> [[c]] | x # xs \<Rightarrow> (c # x) # xs))"

definition isabs :: "string \<Rightarrow> bool" where
  "isabs s = (take 1 s = ''/'')"

text \<open>
  \<open>Path(location)\<close>: \<open>pure_root\<close> is \<open>PurePosixPath.root\<close> (empty, one slash, or two
  slashes when the string starts with exactly two), \<open>pure_names\<close> the parts after the
  root, with empty and \<open>.\<close> segments dropped and \<open>..\<close> kept.
\<close>

record pure_path =
  pure_root :: string
  pure_names :: "string list"

definition splitroot :: "string \<Rightarrow> string" where
  "splitroot s =
     (if take 1 s \<noteq> ''/'' then ''''
      else if take 1 (drop 1 s) \<noteq> ''/'' \<or> take 1 (drop 2 s) = ''/'' then ''/''
      else ''//'')"

definition Path :: "string \<Rightarrow> pure_path" where
  "Path s = \<lparr> pure_root = splitroot s,
             pure_names = filter (\<lambda>n. n \<noteq> [] \<and> n \<noteq> ''.'') (split_sep s) \<rparr>"

definition is_absolute :: "pure_path \<Rightarrow> bool" where
  "is_absolute p = (pure_root p \<noteq> [])"

text \<open>\<open>str\<close> of an absolute path and of a relative one, given by their parts.\<close>

definition str_path :: "path \<Rightarrow> string" where
  "str_path p = (if p = [] then ''/'' else concat (map (\<lambda>n. ''/'' @ n) p))"

fun join_with :: "string \<Rightarrow> string list \<Rightarrow> string" where
  "join_with sep [] = []"
| "join_with sep [n] = n"
| "join_with sep (n # m # ns) = n @ sep @ join_with sep (m # ns)"

definition str_rel :: "string list \<Rightarrow> string" where
  "str_rel ns = (if ns = [] then ''.'' else join_with ''/'' ns)"

text \<open>
  \<open>repr\<close> of a file name, as it appears in the text of an \<open>OSError\<close>: the name between
  single quotes (Python escapes quotes and control characters inside; names without
  them are rendered exactly).
\<close>

definition repr :: "string \<Rightarrow> string" where
  "repr s = [CHR 0x27] @ s @ [CHR 0x27]"

text \<open>\<open>p.relative_to(r)\<close> on absolute paths: \<open>ValueError\<close> unless \<open>r\<close> is a prefix.\<close>

definition relative_to :: "path \<Rightarrow> path \<Rightarrow> exn + string list" where
  "relative_to p r =
     (if prefix r p then Inr (drop (length r) p)
      else Inl (ValueError (repr (str_path p) @ '' is not in the subpath of '' @
                  repr (str_path r) @
                  '' OR one path is relative and the other is absolute.'')))"

fun str_nat :: "nat \<Rightarrow> string" where
  "str_nat n =
     (if n < 10 then [char_of (48 + n)]
      else str_nat (n div 10) @ [char_of (48 + n mod 10)])"

definition errno_num :: "errno \<Rightarrow> nat" where
  "errno_num e = (case e of ENOENT \<Rightarrow> 2 | ENOTDIR \<Rightarrow> 20 | EEXIST \<Rightarrow> 17
                   | EISDIR \<Rightarrow> 21 | ELOOP \<Rightarrow> 40 | ENAMETOOLONG \<Rightarrow> 36)"

definition strerror :: "errno \<Rightarrow> string" where
  "strerror e = (case e of
       ENOENT \<Rightarrow> ''No such file or directory''
     | ENOTDIR \<Rightarrow> ''Not a directory''
     | EEXIST \<Rightarrow> ''File exists''
     | EISDIR \<Rightarrow> ''Is a directory''
     | ELOOP \<Rightarrow> ''Too many levels of symbolic links''
     | ENAMETOOLONG \<Rightarrow> ''File name too long'')"

text \<open>\<open>str(e)\<close>.\<close>

definition str_exn :: "exn \<Rightarrow> string" where
  "str_exn e = (case e of
       OSError n f \<Rightarrow> ''[Errno '' @ str_nat (errno_num n) @ ''] '' @ strerror n @ '': '' @ repr f
     | RuntimeError m \<Rightarrow> m
     | ValueError m \<Rightarrow> m
     | UnicodeDecodeError m \<Rightarrow> m)"

subsection \<open>Looking paths up\<close>

text \<open>
  \<open>lstat\<close> walks the tree and crosses no link. \<open>link_target\<close> is what
  \<open>_joinrealpath\<close> learns from \<open>os.lstat\<close> and \<open>os.readlink\<close> about a path whose
  directory part is free of links, which is how it calls them: the target when the
  path is a symbolic link, nothing when it is anything else or the call fails.
\<close>

fun lstat :: "node \<Rightarrow> path \<Rightarrow> errno + node" where
  "lstat n [] = Inr n"
| "lstat (Dir es) (x # xs) =
     (case map_of es x of None \<Rightarrow> Inl ENOENT | Some c \<Rightarrow> lstat c xs)"
| "lstat _ (x # xs) = Inl ENOTDIR"

definition long_name :: "string \<Rightarrow> bool" where
  "long_name n = (255 < length n)"

definition long_path :: "path \<Rightarrow> bool" where
  "long_path p = (4095 < length (str_path p))"

definition has_nul :: "path \<Rightarrow> bool" where
  "has_nul p = list_ex (\<lambda>n. CHR 0x00 \<in> set n) p"

definition link_target :: "node \<Rightarrow> path \<Rightarrow> string option" where
  "link_target fs p =
     (if long_path p \<or> list_ex long_name p then None
      else case lstat fs p of Inr (Symlink target) \<Rightarrow> Some target | _ \<Rightarrow> None)"

text \<open>The paths of the tree that are symbolic links.\<close>

fun link_paths :: "node \<Rightarrow> path list" where
  "link_paths (File d) = []"
| "link_paths (Symlink target) = [[]]"
| "link_paths (Dir es) = concat (map (\<lambda>e. map ((#) (fst e)) (link_paths (snd e))) es)"

text \<open>
  \<open>posixpath.join\<close> and \<open>posixpath.normpath\<close> on the segments between slashes of an
  absolute path: a part that starts with a slash replaces what is before it; empty
  segments and \<open>.\<close> are dropped, \<open>..\<close> drops the segment before it. (A path that
  starts with exactly two slashes keeps both in Python and is a path from the root to
  the kernel; here it is a path from the root.)
\<close>

definition starts_sep :: "string list \<Rightarrow> bool" where
  "starts_sep r = (case r of [] \<Rightarrow> False | x # xs \<Rightarrow> x = [] \<and> xs \<noteq> [])"

definition join_rest :: "string list \<Rightarrow> string list \<Rightarrow> string list" where
  "join_rest a r = (if starts_sep r then r else a @ r)"

fun normpath :: "string list \<Rightarrow> path \<Rightarrow> path" where
  "normpath [] acc = acc"
| "normpath (c # cs) acc =
     (if c = [] \<or> c = ''.'' then normpath cs acc
      else if c = ''..'' then normpath cs (butlast acc)
      else normpath cs (acc @ [c]))"

text \<open>
  \<open>posixpath._joinrealpath\<close> in non-strict mode, the only mode the source uses,
  followed by the \<open>abspath\<close> of \<open>realpath\<close>. \<open>path\<close> is the part resolved so far,
  \<open>rest\<close> the segments still to walk. The recursive call on the target of a link is the
  walk of the target's segments with the caller's \<open>rest\<close> kept on \<open>stack\<close>, next to the
  link; when the target is walked the link is recorded in \<open>seen\<close> with its resolved
  path. \<open>seen\<close> maps a link that is being resolved to \<open>None\<close>: meeting it again is a
  loop, and the answer is the link joined with every \<open>rest\<close> unresolved, normalised
  by \<open>abspath\<close>. No link is counted. A segment with a NUL byte makes \<open>os.lstat\<close> raise
  \<open>ValueError\<close>, which \<open>realpath\<close> does not catch.
\<close>

function joinrealpath ::
  "node \<Rightarrow> (path \<times> path option) list \<Rightarrow> path \<Rightarrow> string list \<Rightarrow>
   (path \<times> string list) list \<Rightarrow> exn + path" where
  "joinrealpath fs seen path [] [] = Inr path"
| "joinrealpath fs seen path [] ((link, rest) # stack) =
     joinrealpath fs (AList.update link (Some path) seen) path rest stack"
| "joinrealpath fs seen path (name # rest) stack =
     (if name = [] \<or> name = ''.'' then joinrealpath fs seen path rest stack
      else if name = ''..'' then joinrealpath fs seen (butlast path) rest stack
      else if CHR 0x00 \<in> set name then Inl (ValueError ''embedded null byte'')
      else (case link_target fs (path @ [name]) of
              None \<Rightarrow> joinrealpath fs seen (path @ [name]) rest stack
            | Some target \<Rightarrow>
                (case map_of seen (path @ [name]) of
                   Some (Some cached) \<Rightarrow> joinrealpath fs seen cached rest stack
                 | Some None \<Rightarrow>
                     Inr (normpath (foldl join_rest (path @ [name]) (rest # map snd stack)) [])
                 | None \<Rightarrow>
                     joinrealpath fs (AList.update (path @ [name]) None seen)
                       (if isabs target then [] else path)
                       (if isabs target then tl (split_sep target) else split_sep target)
                       ((path @ [name], rest) # stack))))"
  by pat_completeness auto
termination
proof (relation "measures
    [\<lambda>(fs, seen, path, rest, stack). card (set (link_paths fs) - fst ` set seen),
     \<lambda>(fs, seen, path, rest, stack). length rest + sum_list (map (\<lambda>f. Suc (length (snd f))) stack)]")
  have listed: "lstat fs p = Inr (Symlink target) \<Longrightarrow> p \<in> set (link_paths fs)"
    for fs p target
  proof (induction fs p rule: lstat.induct)
    fix es x xs
    assume ih: "\<And>c. map_of es x = Some c \<Longrightarrow> lstat c xs = Inr (Symlink target) \<Longrightarrow>
                  xs \<in> set (link_paths c)"
      and l: "lstat (Dir es) (x # xs) = Inr (Symlink target)"
    from l obtain c where c: "map_of es x = Some c" and lc: "lstat c xs = Inr (Symlink target)"
      by (auto split: option.splits)
    from c have "(x, c) \<in> set es" by (rule map_of_SomeD)
    moreover from ih [OF c lc] have "xs \<in> set (link_paths c)" .
    ultimately show "x # xs \<in> set (link_paths (Dir es))" by force
  qed simp_all
  fix fs :: node and seen :: "(path \<times> path option) list" and path :: path
    and name :: string and rest :: "string list" and stack :: "(path \<times> string list) list"
    and target :: string
  assume t: "link_target fs (path @ [name]) = Some target"
    and n: "map_of seen (path @ [name]) = None"
  from t have "lstat fs (path @ [name]) = Inr (Symlink target)"
    by (auto simp: link_target_def split: if_splits sum.splits node.splits)
  then have 1: "path @ [name] \<in> set (link_paths fs)" by (rule listed)
  from n have 2: "path @ [name] \<notin> fst ` set seen" by (simp add: map_of_eq_None_iff)
  have "set (link_paths fs) - fst ` set (AList.update (path @ [name]) None seen)
        \<subset> set (link_paths fs) - fst ` set seen"
    using 1 2 by (auto simp: dom_update)
  then have "card (set (link_paths fs) - fst ` set (AList.update (path @ [name]) None seen))
        < card (set (link_paths fs) - fst ` set seen)"
    by (intro psubset_card_mono) auto
  then show "((fs, AList.update (path @ [name]) None seen, if isabs target then [] else path,
          if isabs target then tl (split_sep target) else split_sep target,
          (path @ [name], rest) # stack),
         fs, seen, path, name # rest, stack)
        \<in> measures
            [\<lambda>(fs, seen, path, rest, stack). card (set (link_paths fs) - fst ` set seen),
             \<lambda>(fs, seen, path, rest, stack).
                length rest + sum_list (map (\<lambda>f. Suc (length (snd f))) stack)]"
    by simp
next
  fix fs :: node and seen :: "(path \<times> path option) list" and path :: path
    and link :: path and rest :: "string list" and stack :: "(path \<times> string list) list"
  have "set (link_paths fs) - fst ` set (AList.update link (Some path) seen)
        \<subseteq> set (link_paths fs) - fst ` set seen"
    by (auto simp: dom_update)
  then have "card (set (link_paths fs) - fst ` set (AList.update link (Some path) seen))
        \<le> card (set (link_paths fs) - fst ` set seen)"
    by (intro card_mono) auto
  then show "((fs, AList.update link (Some path) seen, path, rest, stack),
         fs, seen, path, [], (link, rest) # stack)
        \<in> measures
            [\<lambda>(fs, seen, path, rest, stack). card (set (link_paths fs) - fst ` set seen),
             \<lambda>(fs, seen, path, rest, stack).
                length rest + sum_list (map (\<lambda>f. Suc (length (snd f))) stack)]"
    by auto
qed simp_all

text \<open>
  The kernel's walk, behind \<open>os.stat\<close>, \<open>os.scandir\<close>, \<open>os.mkdir\<close> and \<open>open\<close>: every
  segment is looked up in a directory, every link is followed, \<open>..\<close> is the parent of
  the directory reached. With \<open>create\<close> the last segment may be missing (the walk of
  \<open>open\<close> for writing); the answer is then the place where it would be.
\<close>

fun namei :: "bool \<Rightarrow> nat \<Rightarrow> node \<Rightarrow> path \<Rightarrow> string list \<Rightarrow> errno + path" where
  "namei create k fs cur [] = Inr cur"
| "namei create k fs cur (name # rest) =
     (case lstat fs cur of
        Inl e \<Rightarrow> Inl e
      | Inr (Dir es) \<Rightarrow>
          (if name = [] \<or> name = ''.'' then namei create k fs cur rest
           else if name = ''..'' then namei create k fs (butlast cur) rest
           else if long_name name then Inl ENAMETOOLONG
           else (case map_of es name of
                   None \<Rightarrow> if create \<and> rest = [] then Inr (cur @ [name]) else Inl ENOENT
                 | Some (Symlink target) \<Rightarrow>
                     (case k of
                        0 \<Rightarrow> Inl ELOOP
                      | Suc k' \<Rightarrow>
                          namei create k' fs (if isabs target then [] else cur)
                            (split_sep target @ rest))
                 | Some (File c) \<Rightarrow> namei create k fs (cur @ [name]) rest
                 | Some (Dir ds) \<Rightarrow> namei create k fs (cur @ [name]) rest))
      | Inr (File c) \<Rightarrow> Inl ENOTDIR
      | Inr (Symlink t) \<Rightarrow> Inl ENOTDIR)"

text \<open>\<open>stat\<close> answers the identity of the node reached and the node itself.\<close>

definition stat :: "filesystem \<Rightarrow> path \<Rightarrow> errno + (path \<times> node)" where
  "stat W p =
     (if long_path p then Inl ENAMETOOLONG
      else case namei False (fs_maxlinks W) (fs_tree W) [] p of
             Inl e \<Rightarrow> Inl e
           | Inr c \<Rightarrow> (case lstat (fs_tree W) c of Inl e \<Rightarrow> Inl e | Inr n \<Rightarrow> Inr (c, n)))"

text \<open>
  \<open>Path.resolve\<close>: \<open>os.path.realpath\<close>, then \<open>stat\<close> of the result, of which only
  \<open>ELOOP\<close> is reported, as \<open>RuntimeError\<close>. \<open>start\<close> is the directory a relative path
  is resolved from.
\<close>

definition resolve_from :: "filesystem \<Rightarrow> path \<Rightarrow> string list \<Rightarrow> exn + path" where
  "resolve_from W start names =
     (case joinrealpath (fs_tree W) [] start names [] of
        Inl e \<Rightarrow> Inl e
      | Inr p \<Rightarrow>
          if has_nul p then Inl (ValueError ''embedded null byte'')
          else if stat W p = Inl ELOOP
            then Inl (RuntimeError (''Symlink loop from '' @ repr (str_path p)))
          else Inr p)"

definition resolve :: "filesystem \<Rightarrow> path \<Rightarrow> exn + path" where
  "resolve W p = resolve_from W [] p"

definition path_stat :: "filesystem \<Rightarrow> path \<Rightarrow> exn + (path \<times> node)" where
  "path_stat W p =
     (case stat W p of Inl e \<Rightarrow> Inl (OSError e (str_path p)) | Inr r \<Rightarrow> Inr r)"

text \<open>
  \<open>Path.exists\<close> and \<open>Path.is_dir\<close> answer \<open>False\<close> for the errors \<open>pathlib\<close> ignores
  and raise the others.
\<close>

definition ignored :: "errno \<Rightarrow> bool" where
  "ignored e = (e = ENOENT \<or> e = ENOTDIR \<or> e = ELOOP)"

definition path_exists :: "filesystem \<Rightarrow> path \<Rightarrow> exn + bool" where
  "path_exists W p =
     (case stat W p of
        Inl e \<Rightarrow> if ignored e then Inr False else Inl (OSError e (str_path p))
      | Inr r \<Rightarrow> Inr True)"

definition is_dir :: "filesystem \<Rightarrow> path \<Rightarrow> exn + bool" where
  "is_dir W p =
     (case stat W p of
        Inl e \<Rightarrow> if ignored e then Inr False else Inl (OSError e (str_path p))
      | Inr (c, Dir es) \<Rightarrow> Inr True
      | Inr (c, File d) \<Rightarrow> Inr False
      | Inr (c, Symlink s) \<Rightarrow> Inr False)"

text \<open>\<open>a.samefile(b)\<close>: \<open>a.stat()\<close>, then \<open>b.stat()\<close>, then the identities compared.\<close>

definition samefile :: "filesystem \<Rightarrow> path \<Rightarrow> path \<Rightarrow> exn + bool" where
  "samefile W a b =
     (case path_stat W a of
        Inl e \<Rightarrow> Inl e
      | Inr sa \<Rightarrow>
          (case path_stat W b of Inl e \<Rightarrow> Inl e | Inr sb \<Rightarrow> Inr (fst sa = fst sb)))"

text \<open>
  \<open>os.scandir\<close> and \<open>os.listdir\<close>, in the order of the directory. \<open>DirEntry.is_dir\<close>
  knows a directory and a file by the entry; for a link it asks \<open>stat\<close>, and an error
  is \<open>False\<close>.
\<close>

definition scandir :: "filesystem \<Rightarrow> path \<Rightarrow> exn + (string \<times> node) list" where
  "scandir W p =
     (case stat W p of
        Inl e \<Rightarrow> Inl (OSError e (str_path p))
      | Inr (c, Dir es) \<Rightarrow> Inr (AList.clearjunk es)
      | Inr (c, File d) \<Rightarrow> Inl (OSError ENOTDIR (str_path p))
      | Inr (c, Symlink s) \<Rightarrow> Inl (OSError ENOTDIR (str_path p)))"

definition listdir :: "filesystem \<Rightarrow> path \<Rightarrow> exn + string list" where
  "listdir W p = (case scandir W p of Inl e \<Rightarrow> Inl e | Inr entries \<Rightarrow> Inr (map fst entries))"

definition entry_is_dir :: "filesystem \<Rightarrow> path \<Rightarrow> string \<times> node \<Rightarrow> bool" where
  "entry_is_dir W dir e =
     (case snd e of
        Dir es \<Rightarrow> True
      | File d \<Rightarrow> False
      | Symlink s \<Rightarrow> (case stat W (dir @ [fst e]) of Inr (c, Dir ds) \<Rightarrow> True | _ \<Rightarrow> False))"

subsection \<open>Changing the tree\<close>

text \<open>
  \<open>put p new\<close> stores \<open>new\<close> at \<open>p\<close>: in place of the node there, or as a new last
  entry of the directory that holds \<open>p\<close>. Where that directory is missing the tree is
  left as it is.
\<close>

fun put :: "path \<Rightarrow> node \<Rightarrow> node \<Rightarrow> node" where
  "put [] new old = new"
| "put (x # xs) new (Dir es) =
     (case map_of es x of
        None \<Rightarrow> if xs = [] then Dir (es @ [(x, new)]) else Dir es
      | Some c \<Rightarrow> Dir (AList.update x (put xs new c) es))"
| "put (x # xs) new (File d) = File d"
| "put (x # xs) new (Symlink s) = Symlink s"

text \<open>\<open>os.mkdir\<close>, by its error number when it fails.\<close>

definition os_mkdir :: "filesystem \<Rightarrow> path \<Rightarrow> errno + filesystem" where
  "os_mkdir W p =
     (if long_path p then Inl ENAMETOOLONG
      else if p = [] then Inl EEXIST
      else case stat W (butlast p) of
             Inl e \<Rightarrow> Inl e
           | Inr (c, Dir es) \<Rightarrow>
               (if long_name (last p) then Inl ENAMETOOLONG
                else case map_of es (last p) of
                       None \<Rightarrow> Inr (W\<lparr>fs_tree := put (c @ [last p]) (Dir []) (fs_tree W)\<rparr>)
                     | Some n \<Rightarrow> Inl EEXIST)
           | Inr (c, File d) \<Rightarrow> Inl ENOTDIR
           | Inr (c, Symlink s) \<Rightarrow> Inl ENOTDIR)"

text \<open>
  \<open>Path.mkdir(parents=False, exist_ok=True)\<close> and \<open>Path.mkdir(parents=True,
  exist_ok=True)\<close>. An error other than a missing parent is let go when \<open>is_dir\<close>
  holds; \<open>is_dir\<close> may raise itself. Both answer the file system as it is when they
  return or raise.
\<close>

definition mkdir_exists :: "filesystem \<Rightarrow> path \<Rightarrow> errno \<Rightarrow> (exn + unit) \<times> filesystem" where
  "mkdir_exists W p e =
     (case is_dir W p of
        Inl e' \<Rightarrow> (Inl e', W)
      | Inr True \<Rightarrow> (Inr (), W)
      | Inr False \<Rightarrow> (Inl (OSError e (str_path p)), W))"

definition mkdir_leaf :: "filesystem \<Rightarrow> path \<Rightarrow> (exn + unit) \<times> filesystem" where
  "mkdir_leaf W p =
     (case os_mkdir W p of
        Inr W' \<Rightarrow> (Inr (), W')
      | Inl e \<Rightarrow>
          if e = ENOENT then (Inl (OSError e (str_path p)), W)
          else mkdir_exists W p e)"

fun path_mkdir :: "filesystem \<Rightarrow> path \<Rightarrow> (exn + unit) \<times> filesystem" where
  "path_mkdir W p =
     (case os_mkdir W p of
        Inr W' \<Rightarrow> (Inr (), W')
      | Inl e \<Rightarrow>
          if e = ENOENT then
            (if p = [] then (Inl (OSError e (str_path p)), W)
             else (case path_mkdir W (butlast p) of
                     (Inl e', W1) \<Rightarrow> (Inl e', W1)
                   | (Inr u, W1) \<Rightarrow> mkdir_leaf W1 p))
          else mkdir_exists W p e)"

declare path_mkdir.simps [simp del]

text \<open>
  \<open>Path.write_bytes\<close>: \<open>open(mode='wb')\<close> creates or truncates the file, then the
  bytes are written; the answer is their number.
\<close>

definition write_bytes :: "filesystem \<Rightarrow> path \<Rightarrow> string \<Rightarrow> (exn + nat) \<times> filesystem" where
  "write_bytes W p data =
     (if long_path p then (Inl (OSError ENAMETOOLONG (str_path p)), W)
      else case namei True (fs_maxlinks W) (fs_tree W) [] p of
        Inl e \<Rightarrow> (Inl (OSError e (str_path p)), W)
      | Inr c \<Rightarrow>
          (case lstat (fs_tree W) c of
             Inr (Dir es) \<Rightarrow> (Inl (OSError EISDIR (str_path p)), W)
           | Inr (Symlink s) \<Rightarrow> (Inl (OSError ELOOP (str_path p)), W)
           | Inr (File d) \<Rightarrow> (Inr (length data), W\<lparr>fs_tree := put c (File data) (fs_tree W)\<rparr>)
           | Inl e \<Rightarrow> (Inr (length data), W\<lparr>fs_tree := put c (File data) (fs_tree W)\<rparr>)))"

subsection \<open>Reading text\<close>

definition byte_in :: "char \<Rightarrow> nat \<Rightarrow> nat \<Rightarrow> bool" where
  "byte_in c lo hi = (lo \<le> (of_char c :: nat) \<and> (of_char c :: nat) \<le> hi)"

text \<open>The byte sequences Python's strict \<open>utf-8\<close> codec decodes.\<close>

fun valid_utf8 :: "string \<Rightarrow> bool" where
  "valid_utf8 [] = True"
| "valid_utf8 (c # cs) =
     (if byte_in c 0x00 0x7F then valid_utf8 cs
      else if byte_in c 0xC2 0xDF then
        (case cs of c1 # r \<Rightarrow> byte_in c1 0x80 0xBF \<and> valid_utf8 r | _ \<Rightarrow> False)
      else if byte_in c 0xE0 0xEF then
        (case cs of
           c1 # c2 # r \<Rightarrow>
             byte_in c1 (if c = CHR 0xE0 then 0xA0 else 0x80)
                        (if c = CHR 0xED then 0x9F else 0xBF) \<and>
             byte_in c2 0x80 0xBF \<and> valid_utf8 r
         | _ \<Rightarrow> False)
      else if byte_in c 0xF0 0xF4 then
        (case cs of
           c1 # c2 # c3 # r \<Rightarrow>
             byte_in c1 (if c = CHR 0xF0 then 0x90 else 0x80)
                        (if c = CHR 0xF4 then 0x8F else 0xBF) \<and>
             byte_in c2 0x80 0xBF \<and> byte_in c3 0x80 0xBF \<and> valid_utf8 r
         | _ \<Rightarrow> False)
      else False)"

text \<open>
  Where the codec stops on the other sequences: the byte it could not decode, the
  positions from which and before which it gave up, and why. \<open>read_text\<close> reads the
  whole file and decodes it in one piece, so the positions count from the start of the
  file.
\<close>

fun decode_error :: "nat \<Rightarrow> string \<Rightarrow> (char \<times> nat \<times> nat \<times> string) option" where
  "decode_error i [] = None"
| "decode_error i (c # cs) =
     (if byte_in c 0x00 0x7F then decode_error (i + 1) cs
      else if byte_in c 0xC2 0xDF then
        (case cs of
           [] \<Rightarrow> Some (c, i, i + 1, ''unexpected end of data'')
         | c1 # r \<Rightarrow>
             if byte_in c1 0x80 0xBF then decode_error (i + 2) r
             else Some (c, i, i + 1, ''invalid continuation byte''))
      else if byte_in c 0xE0 0xEF then
        (case cs of
           [] \<Rightarrow> Some (c, i, i + 1, ''unexpected end of data'')
         | c1 # r1 \<Rightarrow>
             if byte_in c1 (if c = CHR 0xE0 then 0xA0 else 0x80)
                           (if c = CHR 0xED then 0x9F else 0xBF) then
               (case r1 of
                  [] \<Rightarrow> Some (c, i, i + 2, ''unexpected end of data'')
                | c2 # r \<Rightarrow>
                    if byte_in c2 0x80 0xBF then decode_error (i + 3) r
                    else Some (c, i, i + 2, ''invalid continuation byte''))
             else Some (c, i, i + 1, ''invalid continuation byte''))
      else if byte_in c 0xF0 0xF4 then
        (case cs of
           [] \<Rightarrow> Some (c, i, i + 1, ''unexpected end of data'')
         | c1 # r1 \<Rightarrow>
             if byte_in c1 (if c = CHR 0xF0 then 0x90 else 0x80)
                           (if c = CHR 0xF4 then 0x8F else 0xBF) then
               (case r1 of
                  [] \<Rightarrow> Some (c, i, i + 2, ''unexpected end of data'')
                | c2 # r2 \<Rightarrow>
                    if byte_in c2 0x80 0xBF then
                      (case r2 of
                         [] \<Rightarrow> Some (c, i, i + 3, ''unexpected end of data'')
                       | c3 # r \<Rightarrow>
                           if byte_in c3 0x80 0xBF then decode_error (i + 4) r
                           else Some (c, i, i + 3, ''invalid continuation byte''))
                    else Some (c, i, i + 2, ''invalid continuation byte''))
             else Some (c, i, i + 1, ''invalid continuation byte''))
      else Some (c, i, i + 1, ''invalid start byte''))"

definition hex_byte :: "char \<Rightarrow> string" where
  "hex_byte c = [''0123456789abcdef'' ! ((of_char c :: nat) div 16),
                 ''0123456789abcdef'' ! ((of_char c :: nat) mod 16)]"

text \<open>\<open>str\<close> of the \<open>UnicodeDecodeError\<close>.\<close>

definition decode_error_text :: "string \<Rightarrow> string" where
  "decode_error_text data =
     (case decode_error 0 data of
        None \<Rightarrow> []
      | Some (c, first, limit, why) \<Rightarrow>
          [CHR 0x27] @ ''utf-8'' @ [CHR 0x27] @ '' codec can'' @ [CHR 0x27] @ ''t decode '' @
          (if limit = first + 1
           then ''byte 0x'' @ hex_byte c @ '' in position '' @ str_nat first
           else ''bytes in position '' @ str_nat first @ ''-'' @ str_nat (limit - 1)) @
          '': '' @ why)"

text \<open>
  Text mode reads with universal newlines: \<open>\r\n\<close> and a lone \<open>\r\<close> both arrive as
  \<open>\n\<close>.
\<close>

fun universal_newlines :: "string \<Rightarrow> string" where
  "universal_newlines [] = []"
| "universal_newlines [c] = (if c = CHR 0x0D then [CHR 0x0A] else [c])"
| "universal_newlines (c # d # cs) =
     (if c = CHR 0x0D then
        (if d = CHR 0x0A then CHR 0x0A # universal_newlines cs
         else CHR 0x0A # universal_newlines (d # cs))
      else c # universal_newlines (d # cs))"

definition read_text :: "filesystem \<Rightarrow> path \<Rightarrow> exn + string" where
  "read_text W p =
     (case stat W p of
        Inl e \<Rightarrow> Inl (OSError e (str_path p))
      | Inr (c, File data) \<Rightarrow>
          if valid_utf8 data then Inr (universal_newlines data)
          else Inl (UnicodeDecodeError (decode_error_text data))
      | Inr (c, Dir es) \<Rightarrow> Inl (OSError EISDIR (str_path p))
      | Inr (c, Symlink s) \<Rightarrow> Inl (OSError ELOOP (str_path p)))"

subsection \<open>\<open>str.strip\<close>\<close>

text \<open>The characters for which \<open>str.isspace\<close> holds, by their encodings.\<close>

definition whitespace :: "string list" where
  "whitespace =
    [[CHR 0x09], [CHR 0x0A], [CHR 0x0B], [CHR 0x0C], [CHR 0x0D], [CHR 0x1C],
     [CHR 0x1D], [CHR 0x1E], [CHR 0x1F], [CHR 0x20], [CHR 0xC2, CHR 0x85],
     [CHR 0xC2, CHR 0xA0], [CHR 0xE1, CHR 0x9A, CHR 0x80],
     [CHR 0xE2, CHR 0x80, CHR 0x80], [CHR 0xE2, CHR 0x80, CHR 0x81],
     [CHR 0xE2, CHR 0x80, CHR 0x82], [CHR 0xE2, CHR 0x80, CHR 0x83],
     [CHR 0xE2, CHR 0x80, CHR 0x84], [CHR 0xE2, CHR 0x80, CHR 0x85],
     [CHR 0xE2, CHR 0x80, CHR 0x86], [CHR 0xE2, CHR 0x80, CHR 0x87],
     [CHR 0xE2, CHR 0x80, CHR 0x88], [CHR 0xE2, CHR 0x80, CHR 0x89],
     [CHR 0xE2, CHR 0x80, CHR 0x8A], [CHR 0xE2, CHR 0x80, CHR 0xA8],
     [CHR 0xE2, CHR 0x80, CHR 0xA9], [CHR 0xE2, CHR 0x80, CHR 0xAF],
     [CHR 0xE2, CHR 0x81, CHR 0x9F], [CHR 0xE3, CHR 0x80, CHR 0x80]]"

definition ws_prefix :: "string list \<Rightarrow> string \<Rightarrow> nat" where
  "ws_prefix table s = (case find (\<lambda>w. w \<noteq> [] \<and> prefix w s) table of None \<Rightarrow> 0 | Some w \<Rightarrow> length w)"

function strip_left :: "string list \<Rightarrow> string \<Rightarrow> string" where
  "strip_left table s =
     (if ws_prefix table s = 0 then s else strip_left table (drop (ws_prefix table s) s))"
  by pat_completeness auto
termination
proof (relation "measure (\<lambda>(table, s). length s)")
  show "wf (measure (\<lambda>(table, s). length s))" by simp
next
  fix table :: "string list" and s :: string
  assume "ws_prefix table s \<noteq> 0"
  then obtain w where "w \<noteq> []" "prefix w s"
    by (auto simp: ws_prefix_def find_Some_iff split: option.splits)
  then have "s \<noteq> []" by auto
  with \<open>ws_prefix table s \<noteq> 0\<close>
  show "((table, drop (ws_prefix table s) s), (table, s)) \<in> measure (\<lambda>(table, s). length s)"
    by simp
qed

definition strip :: "string \<Rightarrow> string" where
  "strip s = rev (strip_left (map rev whitespace) (rev (strip_left whitespace s)))"

section \<open>FileTool\<close>

definition msg_denied :: string where
  "msg_denied =
    [CHR 0xE8, CHR 0xAE, CHR 0xBF, CHR 0xE9, CHR 0x97, CHR 0xAE, CHR 0xE8, CHR 0xA2,
     CHR 0xAB, CHR 0xE6, CHR 0x8B, CHR 0x92, CHR 0xE7, CHR 0xBB, CHR 0x9D, CHR 0xEF,
     CHR 0xBC, CHR 0x9A, CHR 0xE8, CHR 0xB7, CHR 0xAF, CHR 0xE5, CHR 0xBE, CHR 0x84,
     CHR 0xE8, CHR 0xB6, CHR 0x85, CHR 0xE5, CHR 0x87, CHR 0xBA, CHR 0xE6, CHR 0xA0,
     CHR 0xB9, CHR 0xE7, CHR 0x9B, CHR 0xAE, CHR 0xE5, CHR 0xBD, CHR 0x95, CHR 0xE8,
     CHR 0x8C, CHR 0x83, CHR 0xE5, CHR 0x9B, CHR 0xB4]"

definition msg_tree_denied :: string where
  "msg_tree_denied =
    [CHR 0xE8, CHR 0xB7, CHR 0xAF, CHR 0xE5, CHR 0xBE, CHR 0x84, CHR 0xE8, CHR 0xB6,
     CHR 0x85, CHR 0xE5, CHR 0x87, CHR 0xBA, CHR 0xE6, CHR 0xA0, CHR 0xB9, CHR 0xE7,
     CHR 0x9B, CHR 0xAE, CHR 0xE5, CHR 0xBD, CHR 0x95, CHR 0xE8, CHR 0x8C, CHR 0x83,
     CHR 0xE5, CHR 0x9B, CHR 0xB4]"

definition msg_tree_missing :: string where
  "msg_tree_missing =
    [CHR 0xE7, CHR 0x9B, CHR 0xAE, CHR 0xE5, CHR 0xBD, CHR 0x95, CHR 0xE4, CHR 0xB8,
     CHR 0x8D, CHR 0xE5, CHR 0xAD, CHR 0x98, CHR 0xE5, CHR 0x9C, CHR 0xA8, CHR 0x3A,
     CHR 0x20]"

definition msg_not_a_dir :: string where
  "msg_not_a_dir =
    [CHR 0x20, CHR 0xE4, CHR 0xB8, CHR 0x8D, CHR 0xE6, CHR 0x98, CHR 0xAF, CHR 0xE4,
     CHR 0xB8, CHR 0x80, CHR 0xE4, CHR 0xB8, CHR 0xAA, CHR 0xE7, CHR 0x9B, CHR 0xAE,
     CHR 0xE5, CHR 0xBD, CHR 0x95]"

definition msg_dir_tag :: string where
  "msg_dir_tag =
    [CHR 0x20, CHR 0x28, CHR 0xE7, CHR 0x9B, CHR 0xAE, CHR 0xE5, CHR 0xBD, CHR 0x95,
     CHR 0x29]"

definition msg_exists :: string where
  "msg_exists =
    [CHR 0xE6, CHR 0x96, CHR 0x87, CHR 0xE4, CHR 0xBB, CHR 0xB6, CHR 0x2F, CHR 0xE7,
     CHR 0x9B, CHR 0xAE, CHR 0xE5, CHR 0xBD, CHR 0x95, CHR 0xE5, CHR 0xAD, CHR 0x98,
     CHR 0xE5, CHR 0x9C, CHR 0xA8]"

definition msg_not_exists :: string where
  "msg_not_exists =
    [CHR 0xE6, CHR 0x96, CHR 0x87, CHR 0xE4, CHR 0xBB, CHR 0xB6, CHR 0x2F, CHR 0xE7,
     CHR 0x9B, CHR 0xAE, CHR 0xE5, CHR 0xBD, CHR 0x95, CHR 0xE4, CHR 0xB8, CHR 0x8D,
     CHR 0xE5, CHR 0xAD, CHR 0x98, CHR 0xE5, CHR 0x9C, CHR 0xA8]"

definition msg_cd_missing :: string where
  "msg_cd_missing =
    [CHR 0xE5, CHR 0x88, CHR 0x87, CHR 0xE6, CHR 0x8D, CHR 0xA2, CHR 0xE5, CHR 0xA4,
     CHR 0xB1, CHR 0xE8, CHR 0xB4, CHR 0xA5, CHR 0xEF, CHR 0xBC, CHR 0x9A, CHR 0xE7,
     CHR 0x9B, CHR 0xAE, CHR 0xE5, CHR 0xBD, CHR 0x95, CHR 0xE4, CHR 0xB8, CHR 0x8D,
     CHR 0xE5, CHR 0xAD, CHR 0x98, CHR 0xE5, CHR 0x9C, CHR 0xA8, CHR 0x20, CHR 0x2D,
     CHR 0x20]"

definition msg_cd_failed :: string where
  "msg_cd_failed =
    [CHR 0xE5, CHR 0x88, CHR 0x87, CHR 0xE6, CHR 0x8D, CHR 0xA2, CHR 0xE5, CHR 0xA4,
     CHR 0xB1, CHR 0xE8, CHR 0xB4, CHR 0xA5, CHR 0xEF, CHR 0xBC, CHR 0x9A]"

definition msg_switched :: string where
  "msg_switched =
    [CHR 0xE5, CHR 0xB7, CHR 0xB2, CHR 0xE5, CHR 0x88, CHR 0x87, CHR 0xE6, CHR 0x8D,
     CHR 0xA2, CHR 0xE5, CHR 0x88, CHR 0xB0, CHR 0x3A, CHR 0x20]"

definition msg_cur_missing :: string where
  "msg_cur_missing =
    [CHR 0xE5, CHR 0xBD, CHR 0x93, CHR 0xE5, CHR 0x89, CHR 0x8D, CHR 0xE7, CHR 0x9B,
     CHR 0xAE, CHR 0xE5, CHR 0xBD, CHR 0x95, CHR 0xE4, CHR 0xB8, CHR 0x8D, CHR 0xE5,
     CHR 0xAD, CHR 0x98, CHR 0xE5, CHR 0x9C, CHR 0xA8]"

definition msg_cur_not_dir :: string where
  "msg_cur_not_dir =
    [CHR 0xE5, CHR 0xBD, CHR 0x93, CHR 0xE5, CHR 0x89, CHR 0x8D, CHR 0xE8, CHR 0xB7,
     CHR 0xAF, CHR 0xE5, CHR 0xBE, CHR 0x84, CHR 0xE4, CHR 0xB8, CHR 0x8D, CHR 0xE6,
     CHR 0x98, CHR 0xAF, CHR 0xE4, CHR 0xB8, CHR 0x80, CHR 0xE4, CHR 0xB8, CHR 0xAA,
     CHR 0xE7, CHR 0x9B, CHR 0xAE, CHR 0xE5, CHR 0xBD, CHR 0x95]"

definition word_dir :: string where
  "word_dir =
    [CHR 0xE7, CHR 0x9B, CHR 0xAE, CHR 0xE5, CHR 0xBD, CHR 0x95]"

definition word_file :: string where
  "word_file =
    [CHR 0xE6, CHR 0x96, CHR 0x87, CHR 0xE4, CHR 0xBB, CHR 0xB6]"

definition msg_created :: string where
  "msg_created =
    [CHR 0xE5, CHR 0xB7, CHR 0xB2, CHR 0xE5, CHR 0x88, CHR 0x9B, CHR 0xE5, CHR 0xBB,
     CHR 0xBA, CHR 0xE7, CHR 0x9B, CHR 0xAE, CHR 0xE5, CHR 0xBD, CHR 0x95, CHR 0x3A,
     CHR 0x20]"

definition msg_create_failed :: string where
  "msg_create_failed =
    [CHR 0xE5, CHR 0x88, CHR 0x9B, CHR 0xE5, CHR 0xBB, CHR 0xBA, CHR 0xE7, CHR 0x9B,
     CHR 0xAE, CHR 0xE5, CHR 0xBD, CHR 0x95, CHR 0xE5, CHR 0xA4, CHR 0xB1, CHR 0xE8,
     CHR 0xB4, CHR 0xA5, CHR 0x3A, CHR 0x20]"

definition msg_error_sep :: string where
  "msg_error_sep =
    [CHR 0xEF, CHR 0xBC, CHR 0x8C, CHR 0xE9, CHR 0x94, CHR 0x99, CHR 0xE8, CHR 0xAF,
     CHR 0xAF, CHR 0x3A, CHR 0x20]"

definition msg_written :: string where
  "msg_written =
    [CHR 0xE5, CHR 0xB7, CHR 0xB2, CHR 0xE5, CHR 0x86, CHR 0x99, CHR 0xE5, CHR 0x85,
     CHR 0xA5, CHR 0xE6, CHR 0x96, CHR 0x87, CHR 0xE4, CHR 0xBB, CHR 0xB6, CHR 0x3A,
     CHR 0x20]"

definition msg_size :: string where
  "msg_size =
    [CHR 0x0A, CHR 0xE5, CHR 0xA4, CHR 0xA7, CHR 0xE5, CHR 0xB0, CHR 0x8F, CHR 0x3A,
     CHR 0x20]"

definition msg_bytes :: string where
  "msg_bytes =
    [CHR 0x20, CHR 0xE5, CHR 0xAD, CHR 0x97, CHR 0xE8, CHR 0x8A, CHR 0x82]"

definition msg_write_failed :: string where
  "msg_write_failed =
    [CHR 0xE5, CHR 0x86, CHR 0x99, CHR 0xE5, CHR 0x85, CHR 0xA5, CHR 0xE6, CHR 0x96,
     CHR 0x87, CHR 0xE4, CHR 0xBB, CHR 0xB6, CHR 0xE5, CHR 0xA4, CHR 0xB1, CHR 0xE8,
     CHR 0xB4, CHR 0xA5, CHR 0x3A, CHR 0x20]"

definition msg_read_dir :: string where
  "msg_read_dir =
    [CHR 0xE6, CHR 0x97, CHR 0xA0, CHR 0xE6, CHR 0xB3, CHR 0x95, CHR 0xE8, CHR 0xAF,
     CHR 0xBB, CHR 0xE5, CHR 0x8F, CHR 0x96, CHR 0xE7, CHR 0x9B, CHR 0xAE, CHR 0xE5,
     CHR 0xBD, CHR 0x95, CHR 0xE5, CHR 0x86, CHR 0x85, CHR 0xE5, CHR 0xAE, CHR 0xB9]"

definition msg_no_file :: string where
  "msg_no_file =
    [CHR 0xE6, CHR 0x96, CHR 0x87, CHR 0xE4, CHR 0xBB, CHR 0xB6, CHR 0xE4, CHR 0xB8,
     CHR 0x8D, CHR 0xE5, CHR 0xAD, CHR 0x98, CHR 0xE5, CHR 0x9C, CHR 0xA8]"

definition msg_read_failed :: string where
  "msg_read_failed =
    [CHR 0xE8, CHR 0xAF, CHR 0xBB, CHR 0xE5, CHR 0x8F, CHR 0x96, CHR 0xE6, CHR 0x96,
     CHR 0x87, CHR 0xE4, CHR 0xBB, CHR 0xB6, CHR 0xE5, CHR 0xA4, CHR 0xB1, CHR 0xE8,
     CHR 0xB4, CHR 0xA5, CHR 0x3A, CHR 0x20]"

text \<open>
  \<open>__init__\<close>: \<open>Path(root_path).resolve()\<close>. A relative argument is resolved as the
  absolute path made of the working directory of the process, \<open>cwd\<close> (given by its
  canonical path), and the argument.
\<close>

definition FileTool_init :: "filesystem \<Rightarrow> path \<Rightarrow> string \<Rightarrow> exn + FileTool" where
  "FileTool_init W cwd root =
     (case resolve_from W (if is_absolute (Path root) then [] else cwd)
             (pure_names (Path root)) of
        Inl e \<Rightarrow> Inl e
      | Inr r \<Rightarrow> Inr \<lparr> root_path = r, current_dir = r \<rparr>)"

text \<open>
  \<open>_resolve_path\<close>. \<open>None\<close> is the source's \<open>None\<close>; \<open>Inl\<close> is an exception leaving the
  method. \<open>root in resolved.parents\<close> is the root being a proper prefix; \<open>or\<close> evaluates
  \<open>samefile\<close> only when it is not.
\<close>

definition resolve_path :: "filesystem \<Rightarrow> FileTool \<Rightarrow> string \<Rightarrow> exn + path option" where
  "resolve_path W t location =
     (let target_path = Path location;
          anchored =
            (if is_absolute target_path then root_path t @ pure_names target_path
             else current_dir t @ pure_names target_path)
      in case resolve W anchored of
           Inl e \<Rightarrow> Inl e
         | Inr resolved \<Rightarrow>
             if strict_prefix (root_path t) resolved then Inr (Some resolved)
             else (case samefile W (root_path t) resolved of
                     Inl e \<Rightarrow> Inl e
                   | Inr same \<Rightarrow> Inr (if same then Some resolved else None)))"

text \<open>
  \<open>os.walk(top, topdown=True, followlinks=True)\<close>: a directory that cannot be scanned
  yields nothing, every entry that \<open>is_dir\<close> is walked in turn. The first argument
  bounds the depth; \<open>None\<close> says the bound was reached.
\<close>

fun walk :: "nat \<Rightarrow> filesystem \<Rightarrow> path \<Rightarrow> (path \<times> string list \<times> string list) list option" where
  "walk 0 W dir = None"
| "walk (Suc n) W dir =
     (case scandir W dir of
        Inl e \<Rightarrow> Some []
      | Inr entries \<Rightarrow>
          (let dirs = map fst (filter (entry_is_dir W dir) entries);
               nondirs = map fst (filter (\<lambda>e. \<not> entry_is_dir W dir e) entries)
           in map_option (\<lambda>subs. (dir, dirs, nondirs) # concat subs)
                (those (map (\<lambda>d. walk n W (dir @ [d])) dirs))))"

datatype dict_key = StrKey string | PathKey "string list"

fun tree_loop ::
  "path \<Rightarrow> (path \<times> string list \<times> string list) list \<Rightarrow> (dict_key \<times> string) list \<Rightarrow>
   exn + (dict_key \<times> string) list" where
  "tree_loop root [] tree_result = Inr tree_result"
| "tree_loop root ((dirname, subdirs, files) # visited) tree_result =
     (case relative_to dirname root of
        Inl e \<Rightarrow> Inl e
      | Inr relative \<Rightarrow>
          (let file_list = join_with [CHR 0x0A] files;
               dir_list = join_with [CHR 0x0A] (map (\<lambda>d. d @ msg_dir_tag) subdirs)
           in tree_loop root visited
                (AList.update (PathKey relative) (strip (file_list @ [CHR 0x0A] @ dir_list))
                   tree_result)))"

definition get_directory_tree ::
  "nat \<Rightarrow> filesystem \<Rightarrow> FileTool \<Rightarrow> string \<Rightarrow> (exn + (dict_key \<times> string) list) option" where
  "get_directory_tree n W t directory =
     (case resolve_path W t directory of
        Inl e \<Rightarrow> Some (Inl e)
      | Inr None \<Rightarrow> Some (Inr [(StrKey ''error'', msg_tree_denied)])
      | Inr (Some resolved_dir) \<Rightarrow>
          (case path_exists W resolved_dir of
             Inl e \<Rightarrow> Some (Inl e)
           | Inr False \<Rightarrow> Some (Inr [(StrKey ''error'', msg_tree_missing @ directory)])
           | Inr True \<Rightarrow>
               (case is_dir W resolved_dir of
                  Inl e \<Rightarrow> Some (Inl e)
                | Inr False \<Rightarrow> Some (Inr [(StrKey ''error'', directory @ msg_not_a_dir)])
                | Inr True \<Rightarrow>
                    map_option (\<lambda>visited. tree_loop (root_path t) visited [])
                      (walk n W resolved_dir))))"

definition exists :: "filesystem \<Rightarrow> FileTool \<Rightarrow> string \<Rightarrow> exn + string" where
  "exists W t p =
     (case resolve_path W t p of
        Inl e \<Rightarrow> Inl e
      | Inr None \<Rightarrow> Inr msg_denied
      | Inr (Some resolved) \<Rightarrow>
          (case path_exists W resolved of
             Inl e \<Rightarrow> Inl e
           | Inr found \<Rightarrow> Inr (if found then msg_exists else msg_not_exists)))"

definition get_current_directory :: "FileTool \<Rightarrow> exn + string" where
  "get_current_directory t =
     (case relative_to (current_dir t) (root_path t) of
        Inl e \<Rightarrow> Inl e
      | Inr relative \<Rightarrow> Inr (''/'' @ str_rel relative))"

text \<open>
  \<open>change_directory\<close> answers the outcome and the tool afterwards. The cursor is
  assigned before the answer is formatted, so the tool is returned on both sides.
\<close>

definition change_directory ::
  "filesystem \<Rightarrow> FileTool \<Rightarrow> string \<Rightarrow> (exn + string) \<times> FileTool" where
  "change_directory W t location =
     (case resolve_path W t location of
        Inl e \<Rightarrow> (Inl e, t)
      | Inr None \<Rightarrow> (Inr msg_denied, t)
      | Inr (Some resolved) \<Rightarrow>
          (case path_exists W resolved of
             Inl e \<Rightarrow> (Inl e, t)
           | Inr False \<Rightarrow> (Inr (msg_cd_missing @ location), t)
           | Inr True \<Rightarrow>
               (case is_dir W resolved of
                  Inl e \<Rightarrow> (Inl e, t)
                | Inr False \<Rightarrow> (Inr (msg_cd_failed @ location @ msg_not_a_dir), t)
                | Inr True \<Rightarrow>
                    (let t' = t\<lparr>current_dir := resolved\<rparr>
                     in case get_current_directory t' of
                          Inl e \<Rightarrow> (Inl e, t')
                        | Inr s \<Rightarrow> (Inr (msg_switched @ s), t')))))"

text \<open>The loop of \<open>list_contents\<close>: one line for each item, in order.\<close>

fun item_lines :: "filesystem \<Rightarrow> path \<Rightarrow> string list \<Rightarrow> exn + string list" where
  "item_lines W dir [] = Inr []"
| "item_lines W dir (item # items) =
     (case is_dir W (dir @ [item]) of
        Inl e \<Rightarrow> Inl e
      | Inr d \<Rightarrow>
          (case item_lines W dir items of
             Inl e \<Rightarrow> Inl e
           | Inr contents \<Rightarrow>
               Inr (([CHR 0x22] @ item @ [CHR 0x22] @ '' ('' @
                     (if d then word_dir else word_file) @ '')'') # contents)))"

definition list_contents :: "filesystem \<Rightarrow> FileTool \<Rightarrow> exn + (string \<times> string) list" where
  "list_contents W t =
     (case path_exists W (current_dir t) of
        Inl e \<Rightarrow> Inl e
      | Inr False \<Rightarrow> Inr [(''error'', msg_cur_missing)]
      | Inr True \<Rightarrow>
          (case is_dir W (current_dir t) of
             Inl e \<Rightarrow> Inl e
           | Inr False \<Rightarrow> Inr [(''error'', msg_cur_not_dir)]
           | Inr True \<Rightarrow>
               (case listdir W (current_dir t) of
                  Inl e \<Rightarrow> Inl e
                | Inr items \<Rightarrow>
                    (case item_lines W (current_dir t) items of
                       Inl e \<Rightarrow> Inl e
                     | Inr contents \<Rightarrow>
                         Inr [(''files'', join_with [CHR 0x0A] contents),
                              (''count'', str_nat (length contents))]))))"

text \<open>
  The operations that write answer the outcome and the file system afterwards. In
  \<open>make_directory\<close> the handler formats the path again, outside the \<open>try\<close>.
\<close>

definition make_directory ::
  "filesystem \<Rightarrow> FileTool \<Rightarrow> string \<Rightarrow> (exn + string) \<times> filesystem" where
  "make_directory W t directory =
     (case resolve_path W t directory of
        Inl e \<Rightarrow> (Inl e, W)
      | Inr None \<Rightarrow> (Inr msg_denied, W)
      | Inr (Some resolved) \<Rightarrow>
          (case path_mkdir W resolved of
             (Inr u, W') \<Rightarrow>
               (case relative_to resolved (root_path t) of
                  Inl e \<Rightarrow> (Inl e, W')
                | Inr relative \<Rightarrow> (Inr (msg_created @ str_rel relative), W'))
           | (Inl e, W') \<Rightarrow>
               (case relative_to resolved (root_path t) of
                  Inl e' \<Rightarrow> (Inl e', W')
                | Inr relative \<Rightarrow>
                    (Inr (msg_create_failed @ str_rel relative @ msg_error_sep @ str_exn e),
                     W'))))"

definition write_file ::
  "filesystem \<Rightarrow> FileTool \<Rightarrow> string \<Rightarrow> string \<Rightarrow> (exn + string) \<times> filesystem" where
  "write_file W t file_path content =
     (case resolve_path W t file_path of
        Inl e \<Rightarrow> (Inl e, W)
      | Inr None \<Rightarrow> (Inr msg_denied, W)
      | Inr (Some resolved) \<Rightarrow>
          (case path_mkdir W (butlast resolved) of
             (Inl e, W1) \<Rightarrow> (Inr (msg_write_failed @ str_exn e), W1)
           | (Inr u, W1) \<Rightarrow>
               (case write_bytes W1 resolved content of
                  (Inl e, W2) \<Rightarrow> (Inr (msg_write_failed @ str_exn e), W2)
                | (Inr n, W2) \<Rightarrow>
                    (case relative_to resolved (root_path t) of
                       Inl e \<Rightarrow> (Inr (msg_write_failed @ str_exn e), W2)
                     | Inr relative \<Rightarrow>
                         (Inr (msg_written @ str_rel relative @ msg_size @ str_nat n @
                               msg_bytes), W2)))))"

definition read_file :: "filesystem \<Rightarrow> FileTool \<Rightarrow> string \<Rightarrow> exn + (string \<times> string) list" where
  "read_file W t file_path =
     (case resolve_path W t file_path of
        Inl e \<Rightarrow> Inl e
      | Inr None \<Rightarrow>
          Inr [(''state'', ''error''), (''reason'', msg_denied), (''path'', file_path)]
      | Inr (Some resolved) \<Rightarrow>
          (case relative_to resolved (root_path t) of
             Inl e \<Rightarrow> Inl e
           | Inr relative \<Rightarrow>
               (let relative_path = ''/'' @ str_rel relative
                in case is_dir W resolved of
                     Inl e \<Rightarrow> Inl e
                   | Inr True \<Rightarrow>
                       Inr [(''state'', ''error''), (''reason'', msg_read_dir),
                            (''path'', relative_path)]
                   | Inr False \<Rightarrow>
                       (case path_exists W resolved of
                          Inl e \<Rightarrow> Inl e
                        | Inr False \<Rightarrow>
                            Inr [(''state'', ''error''), (''reason'', msg_no_file),
                                 (''path'', relative_path)]
                        | Inr True \<Rightarrow>
                            (case read_text W resolved of
                               Inr content \<Rightarrow>
                                 Inr [(''state'', ''ok''), (''path'', relative_path),
                                      (''file_content'', content)]
                             | Inl e \<Rightarrow>
                                 Inr [(''state'', ''error''), (''path'', relative_path),
                                      (''reason'', msg_read_failed @ str_exn e)])))))"

subsection \<open>Sequences of calls\<close>

datatype call =
    Get_directory_tree string
  | Exists string
  | Get_current_directory
  | Change_directory string
  | List_contents
  | Make_directory string
  | Write_file string string
  | Read_file string

text \<open>
  What a call leaves behind, whether it returned or raised. Only \<open>change_directory\<close>
  assigns the cursor; only \<open>make_directory\<close> and \<open>write_file\<close> write to the file system.
\<close>

fun step :: "filesystem \<times> FileTool \<Rightarrow> call \<Rightarrow> filesystem \<times> FileTool" where
  "step (W, t) (Change_directory p) = (W, snd (change_directory W t p))"
| "step (W, t) (Make_directory p) = (snd (make_directory W t p), t)"
| "step (W, t) (Write_file p c) = (snd (write_file W t p c), t)"
| "step (W, t) (Get_directory_tree p) = (W, t)"
| "step (W, t) (Exists p) = (W, t)"
| "step (W, t) Get_current_directory = (W, t)"
| "step (W, t) List_contents = (W, t)"
| "step (W, t) (Read_file p) = (W, t)"

definition run :: "filesystem \<times> FileTool \<Rightarrow> call list \<Rightarrow> filesystem \<times> FileTool" where
  "run s calls = foldl step s calls"

section \<open>Growing trees\<close>

text \<open>
  \<open>grows fs fs'\<close>: every node of \<open>fs\<close> is still there in \<open>fs'\<close> with its kind, and
  \<open>fs'\<close> has no other links than \<open>fs\<close>.
\<close>

datatype kind = KFile | KDir | KLink string

definition kind_of :: "errno + node \<Rightarrow> kind option" where
  "kind_of r = (case r of Inl e \<Rightarrow> None | Inr (File d) \<Rightarrow> Some KFile
                | Inr (Dir es) \<Rightarrow> Some KDir | Inr (Symlink t) \<Rightarrow> Some (KLink t))"

definition grows :: "node \<Rightarrow> node \<Rightarrow> bool" where
  "grows fs fs' \<longleftrightarrow>
     (\<forall>q. (\<forall>k. kind_of (lstat fs q) = Some k \<longrightarrow> kind_of (lstat fs' q) = Some k) \<and>
          (\<forall>t. kind_of (lstat fs' q) = Some (KLink t) \<longrightarrow>
               kind_of (lstat fs q) = Some (KLink t)))"

definition same_limit :: "filesystem \<Rightarrow> filesystem \<Rightarrow> bool" where
  "same_limit W W' \<longleftrightarrow> grows (fs_tree W) (fs_tree W') \<and> fs_maxlinks W' = fs_maxlinks W"

section \<open>Example file systems\<close>

text \<open>
  \<open>/sandbox\<close> holds \<open>a/a\<close>, \<open>a/b/f.txt\<close>, \<open>d\<close>, \<open>f.txt\<close> and a link \<open>out\<close> to \<open>/etc\<close>;
  \<open>/etc\<close> holds \<open>passwd\<close>.
\<close>

definition demo_tree :: node where
  "demo_tree = Dir
     [(''sandbox'', Dir
        [(''a'', Dir [(''a'', Dir []), (''b'', Dir [(''f.txt'', File ''hello'')])]),
         (''d'', Dir []),
         (''f.txt'', File ''hi''),
         (''out'', Symlink ''/etc'')]),
      (''etc'', Dir [(''passwd'', File ''secret'')])]"

definition demo_fs :: filesystem where
  "demo_fs = \<lparr> fs_tree = demo_tree, fs_maxlinks = 40 \<rparr>"

definition demo_tool :: FileTool where
  "demo_tool = \<lparr> root_path = [''sandbox''], current_dir = [''sandbox''] \<rparr>"

text \<open>
  \<open>/sandbox\<close> holds \<open>a\<close>, a file \<open>bad.txt\<close> whose bytes are no UTF-8, a link
  \<open>loop\<close> to itself and a link \<open>out\<close> to \<open>/etc\<close>; \<open>/etc\<close> holds \<open>passwd\<close>.
\<close>

definition loop_tree :: node where
  "loop_tree = Dir
     [(''sandbox'', Dir
        [(''a'', Dir []),
         (''bad.txt'', File [CHR ''a'', CHR 0xFF]),
         (''loop'', Symlink ''loop''),
         (''out'', Symlink ''/etc'')]),
      (''etc'', Dir [(''passwd'', File ''secret'')])]"

definition loop_fs :: filesystem where
  "loop_fs = \<lparr> fs_tree = loop_tree, fs_maxlinks = 40 \<rparr>"

definition loop_tool :: FileTool where
  "loop_tool = \<lparr> root_path = [''sandbox''], current_dir = [''sandbox''] \<rparr>"

section \<open>Anchoring of the caller's path\<close>

lemma pure_names_strip:
  "pure_names (Path (dropWhile (\<lambda>c. c = CHR ''/'') p)) = pure_names (Path p)"
  by (induction p) (auto simp: Path_def)

lemma is_absolute_iff: "is_absolute (Path p) \<longleftrightarrow> take 1 p = ''/''"
  by (auto simp: is_absolute_def Path_def splitroot_def)

lemma not_abs_strip: "\<not> is_absolute (Path (dropWhile (\<lambda>c. c = CHR ''/'') p))"
  by (induction p) (auto simp: is_absolute_iff)

lemma resolve_path_abs_cursor:
  "is_absolute (Path p) \<Longrightarrow> resolve_path W (t\<lparr>current_dir := c\<rparr>) p = resolve_path W t p"
  by (simp add: resolve_path_def Let_def split: sum.splits)

text \<open>
  C8. An absolute input loses its leading slashes and is resolved as the relative
  remainder with the cursor at the root, whatever the cursor is: a path returned for it
  is the resolved form of the root joined with its parts. A path returned for a
  relative input is the resolved form of the cursor joined with its parts.
\<close>

theorem resolve_path_anchor:
  "(is_absolute (Path p) \<longrightarrow>
      \<not> is_absolute (Path (dropWhile (\<lambda>c. c = CHR ''/'') p)) \<and>
      resolve_path W t p =
        resolve_path W (t\<lparr>current_dir := root_path t\<rparr>) (dropWhile (\<lambda>c. c = CHR ''/'') p)) \<and>
   (is_absolute (Path p) \<longrightarrow> resolve_path W t p = Inr (Some q) \<longrightarrow>
      resolve W (root_path t @ pure_names (Path p)) = Inr q) \<and>
   (\<not> is_absolute (Path p) \<longrightarrow> resolve_path W t p = Inr (Some q) \<longrightarrow>
      resolve W (current_dir t @ pure_names (Path p)) = Inr q)"
  by (auto simp: resolve_path_def Let_def pure_names_strip not_abs_strip
      split: sum.splits if_splits)

theorem resolve_path_anchor_witness:
  "is_absolute (Path ''/a/b'') \<and>
   resolve_path demo_fs (demo_tool\<lparr>current_dir := [''sandbox'', ''d'']\<rparr>) ''/a/b'' =
     Inr (Some [''sandbox'', ''a'', ''b'']) \<and>
   resolve_path demo_fs (demo_tool\<lparr>current_dir := [''sandbox'']\<rparr>) ''a/b'' =
     Inr (Some [''sandbox'', ''a'', ''b'']) \<and>
   resolve demo_fs ([''sandbox''] @ pure_names (Path ''/a/b'')) = Inr [''sandbox'', ''a'', ''b''] \<and>
   \<not> is_absolute (Path ''b'') \<and>
   resolve_path demo_fs (demo_tool\<lparr>current_dir := [''sandbox'', ''a'']\<rparr>) ''b'' =
     Inr (Some [''sandbox'', ''a'', ''b'']) \<and>
   resolve demo_fs ([''sandbox'', ''a''] @ pure_names (Path ''b'')) =
     Inr [''sandbox'', ''a'', ''b'']"
proof -
  have 1: "is_absolute (Path ''/a/b'')" "\<not> is_absolute (Path ''b'')"
    by (simp_all add: is_absolute_iff)
  have 2: "resolve_path demo_fs (demo_tool\<lparr>current_dir := [''sandbox'', ''d'']\<rparr>) ''/a/b'' =
     Inr (Some [''sandbox'', ''a'', ''b''])"
    by code_simp
  have 3: "resolve_path demo_fs (demo_tool\<lparr>current_dir := [''sandbox'']\<rparr>) ''a/b'' =
     Inr (Some [''sandbox'', ''a'', ''b''])"
    by code_simp
  have 4: "resolve_path demo_fs (demo_tool\<lparr>current_dir := [''sandbox'', ''a'']\<rparr>) ''b'' =
     Inr (Some [''sandbox'', ''a'', ''b''])"
    by code_simp
  have 5: "root_path (demo_tool\<lparr>current_dir := [''sandbox'', ''d'']\<rparr>) = [''sandbox'']"
    "current_dir (demo_tool\<lparr>current_dir := [''sandbox'', ''a'']\<rparr>) = [''sandbox'', ''a'']"
    by (simp_all add: demo_tool_def)
  from
    resolve_path_anchor [of "''/a/b''" demo_fs
      "demo_tool\<lparr>current_dir := [''sandbox'', ''d'']\<rparr>" "[''sandbox'', ''a'', ''b'']"]
    resolve_path_anchor [of "''b''" demo_fs
      "demo_tool\<lparr>current_dir := [''sandbox'', ''a'']\<rparr>" "[''sandbox'', ''a'', ''b'']"]
    1 2 3 4 5
  show ?thesis by simp
qed

section \<open>The cursor\<close>

text \<open>
  C10. With the cursor at the root \<open>get_current_directory\<close> answers \<open>/.\<close>; with the
  cursor below the root it answers \<open>/\<close> followed by the cursor's path relative to the
  root.
\<close>

theorem get_current_directory_root:
  "(current_dir t = root_path t \<longrightarrow> get_current_directory t = Inr ''/.'') \<and>
   (strict_prefix (root_path t) (current_dir t) \<longrightarrow>
      get_current_directory t =
        Inr (''/'' @ join_with ''/'' (drop (length (root_path t)) (current_dir t))))"
  by (auto simp: get_current_directory_def relative_to_def str_rel_def strict_prefix_def
      prefix_def)

theorem get_current_directory_root_witness:
  "current_dir demo_tool = root_path demo_tool \<and>
   get_current_directory demo_tool = Inr ''/.'' \<and>
   strict_prefix (root_path (demo_tool\<lparr>current_dir := [''sandbox'', ''a'', ''b'']\<rparr>))
     (current_dir (demo_tool\<lparr>current_dir := [''sandbox'', ''a'', ''b'']\<rparr>)) \<and>
   get_current_directory (demo_tool\<lparr>current_dir := [''sandbox'', ''a'', ''b'']\<rparr>) = Inr ''/a/b''"
  using get_current_directory_root [of demo_tool]
    get_current_directory_root [of "demo_tool\<lparr>current_dir := [''sandbox'', ''a'', ''b'']\<rparr>"]
  by (simp add: demo_tool_def)

section \<open>A symbolic link that leads to itself\<close>

text \<open>
  C1. \<open>_resolve_path\<close> returns a path that is outside the root. \<open>loop\<close> is a link to
  itself: \<open>realpath\<close> stops there and hands back \<open>loop/../out/passwd\<close> unresolved,
  \<open>abspath\<close> cancels \<open>loop/..\<close>, and \<open>stat\<close> of \<open>/sandbox/out/passwd\<close> succeeds, so
  \<open>Path.resolve\<close> returns it. The root is a proper prefix of it, and the check passes;
  the file it names is \<open>/etc/passwd\<close>, which \<open>read_file\<close> then reads. Without
  the loop the same target is denied.
\<close>

theorem resolve_path_escapes_by_loop:
  "resolve_path loop_fs loop_tool ''loop/../out/passwd'' =
     Inr (Some [''sandbox'', ''out'', ''passwd'']) \<and>
   stat loop_fs [''sandbox'', ''out'', ''passwd''] =
     Inr ([''etc'', ''passwd''], File ''secret'') \<and>
   \<not> prefix (root_path loop_tool) [''etc'', ''passwd''] \<and>
   read_file loop_fs loop_tool ''loop/../out/passwd'' =
     Inr [(''state'', ''ok''), (''path'', ''/out/passwd''), (''file_content'', ''secret'')] \<and>
   resolve_path loop_fs loop_tool ''out/passwd'' = Inr None"
  by code_simp

text \<open>
  C2. The cursor leaves the root. A tool made for \<open>/sandbox\<close> has its cursor there;
  after \<open>change_directory("loop/../out")\<close> the cursor is \<open>/sandbox/out\<close>, whose
  canonical path is \<open>/etc\<close>, and \<open>list_contents\<close> lists \<open>/etc\<close>.
\<close>

theorem cursor_escapes_by_loop:
  "FileTool_init loop_fs [] ''/sandbox'' = Inr loop_tool \<and>
   run (loop_fs, loop_tool) [Change_directory ''loop/../out''] =
     (loop_fs, loop_tool\<lparr>current_dir := [''sandbox'', ''out'']\<rparr>) \<and>
   stat loop_fs [''sandbox'', ''out''] = Inr ([''etc''], Dir [(''passwd'', File ''secret'')]) \<and>
   \<not> prefix (root_path loop_tool) [''etc''] \<and>
   list_contents loop_fs (loop_tool\<lparr>current_dir := [''sandbox'', ''out'']\<rparr>) =
     Inr [(''files'', [CHR 0x22] @ ''passwd'' @ [CHR 0x22] @ '' ('' @ word_file @ '')''),
          (''count'', ''1'')]"
  by code_simp

text \<open>
  C7. \<open>change_directory\<close> commits a cursor whose target is outside the root:
  \<open>loop/../out\<close> is accepted and the cursor becomes \<open>/sandbox/out\<close>, which resolves to
  \<open>/etc\<close>. The same directory asked for as \<open>out\<close> is denied and the tool is left as
  it was.
\<close>

theorem change_directory_commits_outside:
  "change_directory loop_fs loop_tool ''loop/../out'' =
     (Inr (msg_switched @ ''/out''), loop_tool\<lparr>current_dir := [''sandbox'', ''out'']\<rparr>) \<and>
   resolve loop_fs [''sandbox'', ''out''] = Inr [''etc''] \<and>
   \<not> prefix (root_path loop_tool) [''etc''] \<and>
   change_directory loop_fs loop_tool ''out'' = (Inr msg_denied, loop_tool)"
  by code_simp

section \<open>Repeating a change of directory\<close>

lemma same_cursor: "t\<lparr>current_dir := q\<rparr> = t \<longleftrightarrow> q = current_dir t"
  by (cases t) simp

lemma change_directory_keeps:
  "snd (change_directory W t p) = t \<longleftrightarrow>
   (\<forall>q. resolve_path W t p = Inr (Some q) \<and> path_exists W q = Inr True \<and>
        is_dir W q = Inr True \<longrightarrow> q = current_dir t)"
  by (auto simp: change_directory_def Let_def same_cursor
      split: sum.splits option.splits bool.splits)

lemma change_directory_absolute_twice:
  "is_absolute (Path p) \<Longrightarrow>
   snd (change_directory W (snd (change_directory W t p)) p) = snd (change_directory W t p)"
  by (auto simp: change_directory_def Let_def resolve_path_abs_cursor
      split: sum.splits option.splits bool.splits)

text \<open>
  C6, as the code has it. A second \<open>change_directory\<close> with the same input leaves
  the tool the first one left for every absolute input, and for a relative input
  exactly when that input, resolved from the cursor the first call left, is not again
  accepted by \<open>_resolve_path\<close> as an existing directory other than that cursor.
\<close>

theorem change_directory_twice:
  "(is_absolute (Path p) \<longrightarrow>
      snd (change_directory W (snd (change_directory W t p)) p) =
        snd (change_directory W t p)) \<and>
   ((snd (change_directory W (snd (change_directory W t p)) p) =
        snd (change_directory W t p)) =
    (\<forall>q. resolve_path W (snd (change_directory W t p)) p = Inr (Some q) \<and>
         path_exists W q = Inr True \<and> is_dir W q = Inr True \<longrightarrow>
         q = current_dir (snd (change_directory W t p))))"
  using change_directory_absolute_twice [of p W t]
    change_directory_keeps [of W "snd (change_directory W t p)" p]
  by blast

theorem change_directory_twice_witness:
  "is_absolute (Path ''/a'') \<and>
   snd (change_directory demo_fs demo_tool ''/a'') =
     demo_tool\<lparr>current_dir := [''sandbox'', ''a'']\<rparr> \<and>
   snd (change_directory demo_fs (snd (change_directory demo_fs demo_tool ''/a'')) ''/a'') =
     demo_tool\<lparr>current_dir := [''sandbox'', ''a'']\<rparr> \<and>
   \<not> is_absolute (Path ''d'') \<and>
   snd (change_directory demo_fs demo_tool ''d'') =
     demo_tool\<lparr>current_dir := [''sandbox'', ''d'']\<rparr> \<and>
   resolve_path demo_fs (snd (change_directory demo_fs demo_tool ''d'')) ''d'' =
     Inr (Some [''sandbox'', ''d'', ''d'']) \<and>
   path_exists demo_fs [''sandbox'', ''d'', ''d''] = Inr False \<and>
   snd (change_directory demo_fs (snd (change_directory demo_fs demo_tool ''d'')) ''d'') =
     demo_tool\<lparr>current_dir := [''sandbox'', ''d'']\<rparr> \<and>
   \<not> is_absolute (Path ''a/..'') \<and>
   snd (change_directory demo_fs demo_tool ''a/..'') = demo_tool \<and>
   resolve_path demo_fs (snd (change_directory demo_fs demo_tool ''a/..'')) ''a/..'' =
     Inr (Some (current_dir demo_tool)) \<and>
   is_dir demo_fs (current_dir demo_tool) = Inr True \<and>
   snd (change_directory demo_fs (snd (change_directory demo_fs demo_tool ''a/..'')) ''a/..'') =
     demo_tool"
proof -
  have a: "is_absolute (Path ''/a'')" "\<not> is_absolute (Path ''d'')"
    by (simp_all add: is_absolute_iff)
  have 1: "snd (change_directory demo_fs demo_tool ''/a'') =
        demo_tool\<lparr>current_dir := [''sandbox'', ''a'']\<rparr>"
    by code_simp
  have 2: "snd (change_directory demo_fs demo_tool ''d'') =
        demo_tool\<lparr>current_dir := [''sandbox'', ''d'']\<rparr>"
    by code_simp
  have 3: "resolve_path demo_fs (snd (change_directory demo_fs demo_tool ''d'')) ''d'' =
        Inr (Some [''sandbox'', ''d'', ''d''])"
    by code_simp
  have 4: "path_exists demo_fs [''sandbox'', ''d'', ''d''] = Inr False"
    by code_simp
  have b: "\<not> is_absolute (Path ''a/..'')"
    by (simp add: is_absolute_iff)
  have 5: "snd (change_directory demo_fs demo_tool ''a/..'') = demo_tool"
    by code_simp
  have 6: "resolve_path demo_fs demo_tool ''a/..'' = Inr (Some (current_dir demo_tool))"
    by code_simp
  have 7: "is_dir demo_fs (current_dir demo_tool) = Inr True"
    by code_simp
  from change_directory_twice [of "''/a''" demo_fs demo_tool]
    change_directory_twice [of "''d''" demo_fs demo_tool]
    change_directory_twice [of "''a/..''" demo_fs demo_tool] a b 1 2 3 4 5 6 7
  show ?thesis by simp
qed

text \<open>
  C6, as stated, fails: \<open>a\<close> resolves inside the root to the existing directory
  \<open>/sandbox/a\<close>, one call leaves the cursor there, and a second call with the same
  input moves it to \<open>/sandbox/a/a\<close>.
\<close>

theorem change_directory_twice_counterexample:
  "resolve_path demo_fs demo_tool ''a'' = Inr (Some [''sandbox'', ''a'']) \<and>
   is_dir demo_fs [''sandbox'', ''a''] = Inr True \<and>
   snd (change_directory demo_fs demo_tool ''a'') =
     demo_tool\<lparr>current_dir := [''sandbox'', ''a'']\<rparr> \<and>
   snd (change_directory demo_fs (snd (change_directory demo_fs demo_tool ''a'')) ''a'') =
     demo_tool\<lparr>current_dir := [''sandbox'', ''a'', ''a'']\<rparr> \<and>
   snd (change_directory demo_fs (snd (change_directory demo_fs demo_tool ''a'')) ''a'') \<noteq>
     snd (change_directory demo_fs demo_tool ''a'')"
  by code_simp

section \<open>Exceptions\<close>

text \<open>
  C4. \<open>exists\<close> on a path that resolves outside the root to nothing raises: with the
  root at \<open>/sandbox\<close> and no \<open>/nope\<close>, \<open>exists("../nope")\<close> leaves by the
  \<open>FileNotFoundError\<close> of \<open>samefile\<close> instead of answering the denial.
\<close>

theorem exists_raises_outside_root:
  "exists demo_fs demo_tool ''../nope'' = Inl (OSError ENOENT ''/nope'')"
  by code_simp

section \<open>The tree walk\<close>

text \<open>
  C3. \<open>get_directory_tree\<close> checks the directory it is given and nothing it visits
  after. In the example, \<open>out\<close> is a link to \<open>/etc\<close>: \<open>_resolve_path("out")\<close> is
  denied, yet the walk from \<open>.\<close> enters \<open>out\<close> and the mapping lists \<open>passwd\<close>, the
  content of \<open>/etc\<close>, under the key \<open>out\<close>.
\<close>

theorem get_directory_tree_leaves_root:
  "get_directory_tree 3 demo_fs demo_tool ''.'' =
     Some (Inr
       [(PathKey [], ''f.txt'' @ [CHR 0x0A] @ ''a'' @ msg_dir_tag @ [CHR 0x0A] @
                     ''d'' @ msg_dir_tag @ [CHR 0x0A] @ ''out'' @ msg_dir_tag),
        (PathKey [''a''], ''a'' @ msg_dir_tag @ [CHR 0x0A] @ ''b'' @ msg_dir_tag),
        (PathKey [''a'', ''a''], []),
        (PathKey [''a'', ''b''], ''f.txt''),
        (PathKey [''d''], []),
        (PathKey [''out''], ''passwd'')]) \<and>
   resolve demo_fs [''sandbox'', ''out''] = Inr [''etc''] \<and>
   \<not> prefix (root_path demo_tool) [''etc''] \<and>
   resolve_path demo_fs demo_tool ''out'' = Inr None"
  by code_simp

section \<open>Writing leaves what was there\<close>

lemma lstat_append:
  "lstat fs (a @ b) = (case lstat fs a of Inl e \<Rightarrow> Inl e | Inr n \<Rightarrow> lstat n b)"
  by (induction fs a rule: lstat.induct) (auto split: option.splits)

lemma lstat_snoc_Dir:
  "lstat fs cur = Inr (Dir es) \<Longrightarrow>
   lstat fs (cur @ [name]) = (case map_of es name of None \<Rightarrow> Inl ENOENT | Some c \<Rightarrow> Inr c)"
  by (simp add: lstat_append split: option.splits)

lemma kind_of_simps [simp]:
  "kind_of (Inl e) = None" "kind_of (Inr (File d)) = Some KFile"
  "kind_of (Inr (Dir es)) = Some KDir" "kind_of (Inr (Symlink t)) = Some (KLink t)"
  by (simp_all add: kind_of_def)

lemma kind_of_eq:
  "kind_of r = Some KDir \<longleftrightarrow> (\<exists>es. r = Inr (Dir es))"
  "kind_of r = Some KFile \<longleftrightarrow> (\<exists>d. r = Inr (File d))"
  "kind_of r = Some (KLink t) \<longleftrightarrow> r = Inr (Symlink t)"
  "kind_of r = None \<longleftrightarrow> (\<exists>e. r = Inl e)"
  by (auto simp: kind_of_def split: sum.splits node.splits)

lemma grows_refl [simp]: "grows fs fs"
  by (simp add: grows_def)

lemma grows_trans: "grows a b \<Longrightarrow> grows b c \<Longrightarrow> grows a c"
  unfolding grows_def by blast

lemma lstat_File_Cons [simp]: "lstat (File d) (x # xs) = Inl ENOTDIR"
  by simp

lemma kind_lstat_leaf:
  "kind_of (lstat (File d) r) = (if r = [] then Some KFile else None)"
  "kind_of (lstat (Dir []) r) = (if r = [] then Some KDir else None)"
  by (cases r; simp)+

text \<open>What \<open>put\<close> changes, when the directory that holds the place exists.\<close>

lemma map_of_snoc:
  "map_of (es @ [(x, v)]) y = (case map_of es y of Some w \<Rightarrow> Some w | None \<Rightarrow> if y = x then Some v else None)"
  by (induction es) auto

lemma kind_put:
  "c = [] \<or> (\<exists>es. lstat fs (butlast c) = Inr (Dir es)) \<Longrightarrow>
   kind_of (lstat (put c new fs) q) =
     (if prefix c q then kind_of (lstat new (drop (length c) q)) else kind_of (lstat fs q))"
proof (induction c new fs arbitrary: q rule: put.induct)
  case (1 new old)
  then show ?case by simp
next
  case (2 x xs new es)
  show ?case
  proof (cases "map_of es x")
    case None
    show ?thesis
    proof (cases "xs = []")
      case True
      with None show ?thesis
        by (cases q) (auto simp: map_of_snoc split: option.splits)
    next
      case False
      with None "2.prems" have False by (auto simp: lstat_append split: option.splits)
      then show ?thesis ..
    qed
  next
    case (Some ch)
    have ok: "xs = [] \<or> (\<exists>es. lstat ch (butlast xs) = Inr (Dir es))"
      using "2.prems" Some by (auto split: if_splits)
    show ?thesis
    proof (cases q)
      case Nil
      with Some show ?thesis by simp
    next
      case (Cons y ys)
      show ?thesis
      proof (cases "y = x")
        case True
        with Cons Some "2.IH" [OF Some ok, of ys] show ?thesis
          by (simp add: update_conv')
      next
        case False
        with Cons Some show ?thesis by (simp add: update_conv')
      qed
    qed
  qed
next
  case (3 x xs new d)
  then show ?case by (cases "xs = []") auto
next
  case (4 x xs new s)
  then show ?case by (cases "xs = []") auto
qed

lemma lstat_put_same:
  "c = [] \<or> (\<exists>es. lstat fs (butlast c) = Inr (Dir es)) \<Longrightarrow> lstat (put c new fs) c = Inr new"
proof (induction c new fs rule: put.induct)
  case (2 x xs new es)
  show ?case
  proof (cases "map_of es x")
    case None
    with "2.prems" show ?thesis
      by (cases "xs = []") (auto simp: map_of_snoc lstat_append split: option.splits)
  next
    case (Some ch)
    have ok: "xs = [] \<or> (\<exists>es. lstat ch (butlast xs) = Inr (Dir es))"
      using "2.prems" Some by (auto split: if_splits)
    with Some "2.IH" [OF Some ok] show ?thesis by (simp add: update_conv')
  qed
next
  case (3 x xs new d)
  then show ?case by (cases "xs = []") auto
next
  case (4 x xs new s)
  then show ?case by (cases "xs = []") auto
qed simp

lemma grows_put:
  assumes ok: "c = [] \<or> (\<exists>es. lstat fs (butlast c) = Inr (Dir es))"
    and old: "kind_of (lstat fs c) = None \<or> kind_of (lstat fs c) = Some KFile \<and> (\<exists>d. new = File d)"
    and new: "new = Dir [] \<or> (\<exists>d. new = File d)"
  shows "grows fs (put c new fs)"
  unfolding grows_def
proof (intro allI conjI impI)
  fix q k
  assume k: "kind_of (lstat fs q) = Some k"
  show "kind_of (lstat (put c new fs) q) = Some k"
  proof (cases "prefix c q")
    case False
    with k show ?thesis by (simp add: kind_put [OF ok])
  next
    case True
    then obtain r where q: "q = c @ r" by (auto simp: prefix_def)
    show ?thesis
    proof (cases "r = []")
      case True
      with q k old new show ?thesis by (auto simp: kind_put [OF ok])
    next
      case False
      with q k old have False
        by (cases r) (auto simp: lstat_append kind_of_eq split: sum.splits)
      then show ?thesis ..
    qed
  qed
next
  fix q t
  assume t: "kind_of (lstat (put c new fs) q) = Some (KLink t)"
  show "kind_of (lstat fs q) = Some (KLink t)"
  proof (cases "prefix c q")
    case False
    with t show ?thesis by (simp add: kind_put [OF ok])
  next
    case True
    with t new have False
      by (auto simp: kind_put [OF ok] kind_lstat_leaf split: if_splits)
    then show ?thesis ..
  qed
qed

lemma lstat_prefix_Dir:
  "lstat fs (a @ x # b) = Inr n \<Longrightarrow> \<exists>es. lstat fs a = Inr (Dir es)"
  by (cases "lstat fs a") (auto simp: lstat_append elim: lstat.elims)

lemma lstat_parent:
  "lstat fs c = Inr n \<Longrightarrow> c = [] \<or> (\<exists>es. lstat fs (butlast c) = Inr (Dir es))"
proof (cases c rule: rev_cases)
  case (snoc ys y)
  assume "lstat fs c = Inr n"
  with snoc lstat_prefix_Dir [of fs ys y "[]" n] show ?thesis by simp
qed simp

lemma namei_place:
  "namei cr k fs cur rest = Inr c \<Longrightarrow> \<exists>n. lstat fs cur = Inr n \<Longrightarrow>
   (\<exists>n. lstat fs c = Inr n) \<or>
   (cr \<and> (\<exists>es. lstat fs (butlast c) = Inr (Dir es)) \<and> c \<noteq> [] \<and> lstat fs c = Inl ENOENT)"
proof (induction cr k fs cur rest rule: namei.induct)
  case (1 create k fs cur)
  then show ?case by simp
next
  case (2 create k fs cur name rest)
  from "2.prems"(1) obtain es where es: "lstat fs cur = Inr (Dir es)"
    by (auto split: sum.splits node.splits)
  show ?case
  proof (cases "name = [] \<or> name = ''.''")
    case True
    with 2 es show ?thesis by simp
  next
    case skip: False
    show ?thesis
    proof (cases "name = ''..''")
      case True
      have "\<exists>n. lstat fs (butlast cur) = Inr n"
        using lstat_parent [OF es] es by (cases "cur = []") auto
      with 2 es skip True show ?thesis by simp
    next
      case up: False
      from "2.prems"(1) es skip up have long: "\<not> long_name name"
        by (auto split: if_splits)
      show ?thesis
      proof (cases "map_of es name")
        case None
        with "2.prems"(1) es skip up long have "create" "rest = []" "c = cur @ [name]"
          by (auto split: if_splits)
        with es None show ?thesis by (simp add: lstat_snoc_Dir)
      next
        case (Some n)
        have ex: "\<exists>m. lstat fs (cur @ [name]) = Inr m"
          using es Some by (simp add: lstat_snoc_Dir)
        show ?thesis
        proof (cases n)
          case (File d)
          with 2 es skip up long Some ex show ?thesis by simp
        next
          case (Dir ds)
          with 2 es skip up long Some ex show ?thesis by simp
        next
          case (Symlink target)
          with "2.prems"(1) es skip up long Some obtain k' where k: "k = Suc k'"
            by (cases k) auto
          have "\<exists>n. lstat fs (if isabs target then [] else cur) = Inr n"
            using es by auto
          with 2 es skip up long Some Symlink k show ?thesis by simp
        qed
      qed
    qed
  qed
qed

lemma stat_lstat: "stat W p = Inr (c, n) \<Longrightarrow> lstat (fs_tree W) c = Inr n"
  by (auto simp: stat_def split: sum.splits if_splits)

lemma same_limit_refl [simp]: "same_limit W W"
  by (simp add: same_limit_def)

lemma same_limit_trans: "same_limit A B \<Longrightarrow> same_limit B C \<Longrightarrow> same_limit A C"
  by (auto simp: same_limit_def intro: grows_trans)

lemma os_mkdir_grows: "os_mkdir W p = Inr W' \<Longrightarrow> same_limit W W'"
proof -
  assume a: "os_mkdir W p = Inr W'"
  then obtain c es where s: "stat W (butlast p) = Inr (c, Dir es)"
      and n: "map_of es (last p) = None"
      and W': "W' = W\<lparr>fs_tree := put (c @ [last p]) (Dir []) (fs_tree W)\<rparr>"
    by (auto simp: os_mkdir_def split: if_splits sum.splits node.splits option.splits)
  from s have d: "lstat (fs_tree W) c = Inr (Dir es)" by (rule stat_lstat)
  with n have "kind_of (lstat (fs_tree W) (c @ [last p])) = None"
    by (simp add: lstat_snoc_Dir)
  with d have "grows (fs_tree W) (put (c @ [last p]) (Dir []) (fs_tree W))"
    by (intro grows_put) auto
  with W' show ?thesis by (simp add: same_limit_def)
qed

lemma mkdir_exists_snd [simp]: "snd (mkdir_exists W p e) = W"
  by (simp add: mkdir_exists_def split: sum.splits bool.splits)

lemma mkdir_leaf_grows: "same_limit W (snd (mkdir_leaf W p))"
  by (auto simp: mkdir_leaf_def dest: os_mkdir_grows split: sum.splits)

lemma path_mkdir_grows: "same_limit W (snd (path_mkdir W p))"
proof (induction W p rule: path_mkdir.induct)
  case (1 W p)
  show ?case
  proof (cases "os_mkdir W p")
    case (Inr W')
    then show ?thesis by (simp add: path_mkdir.simps [of W p] os_mkdir_grows)
  next
    case (Inl e)
    show ?thesis
    proof (cases "e = ENOENT \<and> p \<noteq> []")
      case False
      with Inl show ?thesis by (auto simp: path_mkdir.simps [of W p])
    next
      case True
      with "1.IH" [OF Inl] have ih: "same_limit W (snd (path_mkdir W (butlast p)))" by simp
      show ?thesis
      proof (cases "path_mkdir W (butlast p)")
        case (Pair r W1)
        with ih have 1: "same_limit W W1" by simp
        have 2: "same_limit W1 (snd (mkdir_leaf W1 p))" by (rule mkdir_leaf_grows)
        from Inl True Pair 1 2 show ?thesis
          by (cases r) (auto simp: path_mkdir.simps [of W p] intro: same_limit_trans)
      qed
    qed
  qed
qed

lemma write_bytes_grows: "same_limit W (snd (write_bytes W p data))"
proof (cases "namei True (fs_maxlinks W) (fs_tree W) [] p")
  case (Inl e)
  then show ?thesis by (simp add: write_bytes_def)
next
  case (Inr c)
  note nm = Inr
  from namei_place [OF Inr] have pl:
    "(\<exists>n. lstat (fs_tree W) c = Inr n) \<or>
     ((\<exists>es. lstat (fs_tree W) (butlast c) = Inr (Dir es)) \<and> c \<noteq> [] \<and>
       lstat (fs_tree W) c = Inl ENOENT)"
    by auto
  then have ok: "c = [] \<or> (\<exists>es. lstat (fs_tree W) (butlast c) = Inr (Dir es))"
    by (auto dest: lstat_parent)
  show ?thesis
  proof (cases "lstat (fs_tree W) c")
    case e: (Inl e)
    then have "grows (fs_tree W) (put c (File data) (fs_tree W))"
      using ok by (intro grows_put) auto
    with Inr e show ?thesis by (simp add: write_bytes_def same_limit_def)
  next
    case n: (Inr n)
    show ?thesis
    proof (cases n)
      case (File d)
      with n have "grows (fs_tree W) (put c (File data) (fs_tree W))"
        using ok by (intro grows_put) auto
      with Inr n File show ?thesis by (simp add: write_bytes_def same_limit_def)
    qed (use Inr n in \<open>simp_all add: write_bytes_def\<close>)
  qed
qed

lemma make_directory_snd:
  "resolve_path W t p = Inr (Some q) \<Longrightarrow>
   snd (make_directory W t p) = snd (path_mkdir W q)"
  by (cases "path_mkdir W q") (simp add: make_directory_def split: sum.splits)

lemma make_directory_grows: "same_limit W (snd (make_directory W t p))"
proof (cases "resolve_path W t p")
  case (Inl e)
  then show ?thesis by (simp add: make_directory_def)
next
  case (Inr r)
  show ?thesis
  proof (cases r)
    case None
    with Inr show ?thesis by (simp add: make_directory_def)
  next
    case (Some q)
    with Inr show ?thesis by (simp add: make_directory_snd path_mkdir_grows)
  qed
qed

lemma write_file_snd:
  "resolve_path W t p = Inr (Some q) \<Longrightarrow>
   snd (write_file W t p c) =
     (case fst (path_mkdir W (butlast q)) of
        Inl e \<Rightarrow> snd (path_mkdir W (butlast q))
      | Inr u \<Rightarrow> snd (write_bytes (snd (path_mkdir W (butlast q))) q c))"
  by (cases "path_mkdir W (butlast q)";
      cases "write_bytes (snd (path_mkdir W (butlast q))) q c")
     (simp add: write_file_def split: sum.splits)

lemma write_file_grows: "same_limit W (snd (write_file W t p c))"
proof (cases "resolve_path W t p")
  case (Inl e)
  then show ?thesis by (simp add: write_file_def)
next
  case (Inr r)
  show ?thesis
  proof (cases r)
    case None
    with Inr show ?thesis by (simp add: write_file_def)
  next
    case (Some q)
    have 1: "same_limit W (snd (path_mkdir W (butlast q)))" by (rule path_mkdir_grows)
    have 2: "same_limit (snd (path_mkdir W (butlast q)))
               (snd (write_bytes (snd (path_mkdir W (butlast q))) q c))"
      by (rule write_bytes_grows)
    from Inr Some 1 same_limit_trans [OF 1 2] show ?thesis
      by (simp add: write_file_snd split: sum.splits)
  qed
qed

section \<open>What a failure carries\<close>

text \<open>The codec reports an error exactly for the sequences it does not decode.\<close>

lemma decode_error_valid: "decode_error i data = None \<longleftrightarrow> valid_utf8 data"
proof (induction data arbitrary: i rule: valid_utf8.induct)
  case 1
  show ?case by simp
next
  case (2 c cs)
  show ?case
  proof (cases "byte_in c 0x00 0x7F")
    case True
    with 2 show ?thesis by simp
  next
    case a: False
    show ?thesis
    proof (cases "byte_in c 0xC2 0xDF")
      case True
      with a 2 show ?thesis by (cases cs) auto
    next
      case b: False
      show ?thesis
      proof (cases "byte_in c 0xE0 0xEF")
        case True
        with a b 2 show ?thesis
          by (cases cs; cases "tl cs") auto
      next
        case c: False
        show ?thesis
        proof (cases "byte_in c 0xF0 0xF4")
          case True
          with a b c 2 show ?thesis
            by (cases cs; cases "tl cs"; cases "tl (tl cs)") auto
        next
          case False
          with a b c show ?thesis by simp
        qed
      qed
    qed
  qed
qed

lemma missing_not_dir: "path_exists W q = Inr False \<Longrightarrow> is_dir W q = Inr False"
  by (auto simp: is_dir_def path_exists_def split: sum.splits if_splits)

lemma file_checks:
  "stat W q = Inr (c, File data) \<Longrightarrow> is_dir W q = Inr False \<and> path_exists W q = Inr True"
  by (simp add: is_dir_def path_exists_def)

lemma make_directory_failure:
  assumes "resolve_path W t p = Inr (Some q)" and "relative_to q (root_path t) = Inr rel"
    and "fst (path_mkdir W q) = Inl e"
  shows "fst (make_directory W t p) =
           Inr (msg_create_failed @ str_rel rel @ msg_error_sep @ str_exn e)"
  using assms by (cases "path_mkdir W q") (simp add: make_directory_def)

text \<open>
  C9, as the code has it. A containment denial is a fixed text without any path in
  \<open>exists\<close>, \<open>change_directory\<close>, \<open>make_directory\<close>, \<open>write_file\<close> and
  \<open>get_directory_tree\<close>; only \<open>read_file\<close> returns the caller's path with it. The
  not-found and not-a-directory results of \<open>change_directory\<close> and
  \<open>get_directory_tree\<close> hold the caller's path as given. Every failure of \<open>read_file\<close>
  past the denial holds the resolved path relative to the root, after a slash; where
  the file cannot be decoded, the reason is the codec's message, which names no path.
  The failure of \<open>make_directory\<close> starts with the resolved path relative to the
  root; what follows is the text of the exception. Each result is made of fixed text,
  the caller's path and the path relative to the root: none mentions the root or the
  resolved path.
\<close>

theorem failure_results:
  "(resolve_path W t p = Inr None \<longrightarrow>
      exists W t p = Inr msg_denied \<and>
      fst (change_directory W t p) = Inr msg_denied \<and>
      fst (make_directory W t p) = Inr msg_denied \<and>
      fst (write_file W t p content) = Inr msg_denied \<and>
      get_directory_tree n W t p = Some (Inr [(StrKey ''error'', msg_tree_denied)]) \<and>
      read_file W t p =
        Inr [(''state'', ''error''), (''reason'', msg_denied), (''path'', p)]) \<and>
   (\<forall>q. resolve_path W t p = Inr (Some q) \<and> path_exists W q = Inr False \<longrightarrow>
      fst (change_directory W t p) = Inr (msg_cd_missing @ p) \<and>
      get_directory_tree n W t p = Some (Inr [(StrKey ''error'', msg_tree_missing @ p)]) \<and>
      (\<forall>rel. relative_to q (root_path t) = Inr rel \<longrightarrow>
         read_file W t p =
           Inr [(''state'', ''error''), (''reason'', msg_no_file),
                (''path'', ''/'' @ str_rel rel)])) \<and>
   (\<forall>q. resolve_path W t p = Inr (Some q) \<and> path_exists W q = Inr True \<and>
        is_dir W q = Inr False \<longrightarrow>
      fst (change_directory W t p) = Inr (msg_cd_failed @ p @ msg_not_a_dir) \<and>
      get_directory_tree n W t p = Some (Inr [(StrKey ''error'', p @ msg_not_a_dir)])) \<and>
   (\<forall>q rel. resolve_path W t p = Inr (Some q) \<and> is_dir W q = Inr True \<and>
        relative_to q (root_path t) = Inr rel \<longrightarrow>
      read_file W t p =
        Inr [(''state'', ''error''), (''reason'', msg_read_dir),
             (''path'', ''/'' @ str_rel rel)]) \<and>
   (\<forall>q rel c data. resolve_path W t p = Inr (Some q) \<and>
        relative_to q (root_path t) = Inr rel \<and>
        stat W q = Inr (c, File data) \<and> \<not> valid_utf8 data \<longrightarrow>
      read_file W t p =
        Inr [(''state'', ''error''), (''path'', ''/'' @ str_rel rel),
             (''reason'', msg_read_failed @ decode_error_text data)]) \<and>
   (\<forall>q rel e. resolve_path W t p = Inr (Some q) \<and>
        relative_to q (root_path t) = Inr rel \<and> fst (path_mkdir W q) = Inl e \<longrightarrow>
      (\<exists>tail. fst (make_directory W t p) =
         Inr (msg_create_failed @ str_rel rel @ msg_error_sep @ tail)))"
proof (intro conjI impI allI)
  assume "resolve_path W t p = Inr None"
  then show "exists W t p = Inr msg_denied"
    "fst (change_directory W t p) = Inr msg_denied"
    "fst (make_directory W t p) = Inr msg_denied"
    "fst (write_file W t p content) = Inr msg_denied"
    "get_directory_tree n W t p = Some (Inr [(StrKey ''error'', msg_tree_denied)])"
    "read_file W t p = Inr [(''state'', ''error''), (''reason'', msg_denied), (''path'', p)]"
    by (simp_all add: exists_def change_directory_def make_directory_def write_file_def
        get_directory_tree_def read_file_def)
next
  fix q
  assume a: "resolve_path W t p = Inr (Some q) \<and> path_exists W q = Inr False"
  then show "fst (change_directory W t p) = Inr (msg_cd_missing @ p)"
    "get_directory_tree n W t p = Some (Inr [(StrKey ''error'', msg_tree_missing @ p)])"
    by (simp_all add: change_directory_def get_directory_tree_def)
  fix rel
  assume "relative_to q (root_path t) = Inr rel"
  with a missing_not_dir [of W q]
  show "read_file W t p =
          Inr [(''state'', ''error''), (''reason'', msg_no_file), (''path'', ''/'' @ str_rel rel)]"
    by (simp add: read_file_def Let_def)
next
  fix q
  assume "resolve_path W t p = Inr (Some q) \<and> path_exists W q = Inr True \<and>
          is_dir W q = Inr False"
  then show "fst (change_directory W t p) = Inr (msg_cd_failed @ p @ msg_not_a_dir)"
    "get_directory_tree n W t p = Some (Inr [(StrKey ''error'', p @ msg_not_a_dir)])"
    by (simp_all add: change_directory_def get_directory_tree_def)
next
  fix q rel
  assume "resolve_path W t p = Inr (Some q) \<and> is_dir W q = Inr True \<and>
          relative_to q (root_path t) = Inr rel"
  then show "read_file W t p =
     Inr [(''state'', ''error''), (''reason'', msg_read_dir), (''path'', ''/'' @ str_rel rel)]"
    by (simp add: read_file_def Let_def)
next
  fix q rel c data
  assume a: "resolve_path W t p = Inr (Some q) \<and> relative_to q (root_path t) = Inr rel \<and>
          stat W q = Inr (c, File data) \<and> \<not> valid_utf8 data"
  then have "is_dir W q = Inr False \<and> path_exists W q = Inr True"
    by (simp add: file_checks)
  with a show "read_file W t p =
     Inr [(''state'', ''error''), (''path'', ''/'' @ str_rel rel),
          (''reason'', msg_read_failed @ decode_error_text data)]"
    by (simp add: read_file_def Let_def read_text_def str_exn_def)
next
  fix q rel e
  assume "resolve_path W t p = Inr (Some q) \<and> relative_to q (root_path t) = Inr rel \<and>
          fst (path_mkdir W q) = Inl e"
  then have "fst (make_directory W t p) =
           Inr (msg_create_failed @ str_rel rel @ msg_error_sep @ str_exn e)"
    by (simp add: make_directory_failure)
  then show "\<exists>tail. fst (make_directory W t p) =
         Inr (msg_create_failed @ str_rel rel @ msg_error_sep @ tail)"
    by blast
qed

theorem failure_results_witness:
  "resolve_path demo_fs demo_tool ''../etc'' = Inr None \<and>
   exists demo_fs demo_tool ''../etc'' = Inr msg_denied \<and>
   read_file demo_fs demo_tool ''../etc'' =
     Inr [(''state'', ''error''), (''reason'', msg_denied), (''path'', ''../etc'')] \<and>
   resolve_path demo_fs demo_tool ''a/nope'' = Inr (Some [''sandbox'', ''a'', ''nope'']) \<and>
   path_exists demo_fs [''sandbox'', ''a'', ''nope''] = Inr False \<and>
   relative_to [''sandbox'', ''a'', ''nope''] (root_path demo_tool) = Inr [''a'', ''nope''] \<and>
   fst (change_directory demo_fs demo_tool ''a/nope'') = Inr (msg_cd_missing @ ''a/nope'') \<and>
   read_file demo_fs demo_tool ''a/nope'' =
     Inr [(''state'', ''error''), (''reason'', msg_no_file), (''path'', ''/a/nope'')] \<and>
   resolve_path demo_fs demo_tool ''f.txt'' = Inr (Some [''sandbox'', ''f.txt'']) \<and>
   path_exists demo_fs [''sandbox'', ''f.txt''] = Inr True \<and>
   is_dir demo_fs [''sandbox'', ''f.txt''] = Inr False \<and>
   get_directory_tree 3 demo_fs demo_tool ''f.txt'' =
     Some (Inr [(StrKey ''error'', ''f.txt'' @ msg_not_a_dir)]) \<and>
   resolve_path demo_fs demo_tool ''./d'' = Inr (Some [''sandbox'', ''d'']) \<and>
   is_dir demo_fs [''sandbox'', ''d''] = Inr True \<and>
   relative_to [''sandbox'', ''d''] (root_path demo_tool) = Inr [''d''] \<and>
   read_file demo_fs demo_tool ''./d'' =
     Inr [(''state'', ''error''), (''reason'', msg_read_dir), (''path'', ''/d'')] \<and>
   resolve_path loop_fs loop_tool ''bad.txt'' = Inr (Some [''sandbox'', ''bad.txt'']) \<and>
   relative_to [''sandbox'', ''bad.txt''] (root_path loop_tool) = Inr [''bad.txt''] \<and>
   stat loop_fs [''sandbox'', ''bad.txt''] =
     Inr ([''sandbox'', ''bad.txt''], File [CHR ''a'', CHR 0xFF]) \<and>
   \<not> valid_utf8 [CHR ''a'', CHR 0xFF] \<and>
   read_file loop_fs loop_tool ''bad.txt'' =
     Inr [(''state'', ''error''), (''path'', ''/bad.txt''),
          (''reason'', msg_read_failed @ [CHR 0x27] @ ''utf-8'' @ [CHR 0x27] @ '' codec can'' @
             [CHR 0x27] @ ''t decode byte 0xff in position 1: invalid start byte'')] \<and>
   fst (path_mkdir demo_fs [''sandbox'', ''f.txt'']) = Inl (OSError EEXIST ''/sandbox/f.txt'') \<and>
   (\<exists>tail. fst (make_directory demo_fs demo_tool ''f.txt'') =
      Inr (msg_create_failed @ ''f.txt'' @ msg_error_sep @ tail)) \<and>
   \<not> sublist ''/sandbox'' (msg_cd_missing @ ''a/nope'') \<and>
   \<not> sublist ''/sandbox'' (msg_read_failed @ decode_error_text [CHR ''a'', CHR 0xFF]) \<and>
   \<not> sublist ''/sandbox'' (msg_create_failed @ ''f.txt'' @ msg_error_sep)"
proof -
  have 1: "resolve_path demo_fs demo_tool ''../etc'' = Inr None" by code_simp
  have 2: "resolve_path demo_fs demo_tool ''a/nope'' = Inr (Some [''sandbox'', ''a'', ''nope''])"
    by code_simp
  have 3: "path_exists demo_fs [''sandbox'', ''a'', ''nope''] = Inr False" by code_simp
  have 4: "relative_to [''sandbox'', ''a'', ''nope''] (root_path demo_tool) = Inr [''a'', ''nope'']"
    by code_simp
  have 5: "resolve_path demo_fs demo_tool ''f.txt'' = Inr (Some [''sandbox'', ''f.txt''])"
    by code_simp
  have 6: "path_exists demo_fs [''sandbox'', ''f.txt''] = Inr True"
    "is_dir demo_fs [''sandbox'', ''f.txt''] = Inr False"
    by code_simp+
  have 7: "resolve_path demo_fs demo_tool ''./d'' = Inr (Some [''sandbox'', ''d''])" by code_simp
  have 8: "is_dir demo_fs [''sandbox'', ''d''] = Inr True" by code_simp
  have 9: "relative_to [''sandbox'', ''d''] (root_path demo_tool) = Inr [''d'']" by code_simp
  have 10: "resolve_path loop_fs loop_tool ''bad.txt'' = Inr (Some [''sandbox'', ''bad.txt''])"
    by code_simp
  have 11: "relative_to [''sandbox'', ''bad.txt''] (root_path loop_tool) = Inr [''bad.txt'']"
    by code_simp
  have 12: "stat loop_fs [''sandbox'', ''bad.txt''] =
     Inr ([''sandbox'', ''bad.txt''], File [CHR ''a'', CHR 0xFF])"
    by code_simp
  have 13: "\<not> valid_utf8 [CHR ''a'', CHR 0xFF]" by code_simp
  have 14: "decode_error_text [CHR ''a'', CHR 0xFF] =
     [CHR 0x27] @ ''utf-8'' @ [CHR 0x27] @ '' codec can'' @
       [CHR 0x27] @ ''t decode byte 0xff in position 1: invalid start byte''"
    by code_simp
  have 15: "fst (path_mkdir demo_fs [''sandbox'', ''f.txt'']) =
     Inl (OSError EEXIST ''/sandbox/f.txt'')"
    by code_simp
  have s: "str_rel [''a'', ''nope''] = ''a/nope''" "str_rel [''d''] = ''d''"
    "str_rel [''bad.txt''] = ''bad.txt''" "str_rel [''f.txt''] = ''f.txt''"
    by (simp_all add: str_rel_def)
  have 16: "relative_to [''sandbox'', ''f.txt''] (root_path demo_tool) = Inr [''f.txt'']"
    by code_simp
  have 17: "\<not> sublist ''/sandbox'' (msg_cd_missing @ ''a/nope'')"
    "\<not> sublist ''/sandbox'' (msg_read_failed @ decode_error_text [CHR ''a'', CHR 0xFF])"
    "\<not> sublist ''/sandbox'' (msg_create_failed @ ''f.txt'' @ msg_error_sep)"
    by code_simp+
  show ?thesis
    using failure_results [of demo_fs demo_tool "''../etc''" "[]" 3]
      failure_results [of demo_fs demo_tool "''a/nope''" "[]" 3]
      failure_results [of demo_fs demo_tool "''f.txt''" "[]" 3]
      failure_results [of demo_fs demo_tool "''./d''" "[]" 3]
      failure_results [of loop_fs loop_tool "''bad.txt''" "[]" 3]
      1 2 3 4 5 6 7 8 9 10 11 12 13 14 15 16 17 s
    by simp
qed

text \<open>
  C9, as stated, fails. \<open>exists("../etc/passwd")\<close> and \<open>make_directory("../etc")\<close>
  are denied with a text that holds neither the caller's path nor a part of it. The
  failures of \<open>write_file("d", "x")\<close> and \<open>make_directory("f.txt")\<close> end with the text
  of the exception, which names the file by its real path.
\<close>

theorem failure_results_counterexample:
  "exists demo_fs demo_tool ''../etc/passwd'' = Inr msg_denied \<and>
   \<not> sublist ''../etc/passwd'' msg_denied \<and> \<not> sublist ''passwd'' msg_denied \<and>
   fst (make_directory demo_fs demo_tool ''../etc'') = Inr msg_denied \<and>
   \<not> sublist ''../etc'' msg_denied \<and> \<not> sublist ''etc'' msg_denied \<and>
   fst (write_file demo_fs demo_tool ''d'' ''x'') =
     Inr (msg_write_failed @ ''[Errno 21] Is a directory: '' @ repr ''/sandbox/d'') \<and>
   sublist ''/sandbox/d''
     (msg_write_failed @ ''[Errno 21] Is a directory: '' @ repr ''/sandbox/d'') \<and>
   fst (make_directory demo_fs demo_tool ''f.txt'') =
     Inr (msg_create_failed @ ''f.txt'' @ msg_error_sep @
          ''[Errno 17] File exists: '' @ repr ''/sandbox/f.txt'') \<and>
   sublist ''/sandbox/f.txt''
     (msg_create_failed @ ''f.txt'' @ msg_error_sep @
      ''[Errno 17] File exists: '' @ repr ''/sandbox/f.txt'')"
  by code_simp

section \<open>Reading back what was written\<close>

lemma grows_link:
  "grows fs fs' \<Longrightarrow> lstat fs' q = Inr (Symlink t) \<longleftrightarrow> lstat fs q = Inr (Symlink t)"
  unfolding grows_def by (metis kind_of_eq(3))

lemma link_target_grows: "grows fs fs' \<Longrightarrow> link_target fs' p = link_target fs p"
proof -
  assume g: "grows fs fs'"
  have "(case lstat fs' p of Inr (Symlink target) \<Rightarrow> Some target | _ \<Rightarrow> None) =
        (case lstat fs p of Inr (Symlink target) \<Rightarrow> Some target | _ \<Rightarrow> None)"
  proof (cases "\<exists>t. lstat fs p = Inr (Symlink t)")
    case True
    then obtain t where t: "lstat fs p = Inr (Symlink t)" by blast
    with g have "lstat fs' p = Inr (Symlink t)" by (simp add: grows_link)
    with t show ?thesis by simp
  next
    case False
    with g have "\<not> (\<exists>t. lstat fs' p = Inr (Symlink t))" by (simp add: grows_link)
    with False show ?thesis by (auto split: sum.splits node.splits)
  qed
  then show ?thesis by (simp add: link_target_def)
qed

lemma joinrealpath_grows:
  "grows fs fs' \<Longrightarrow> joinrealpath fs' seen path rest stack = joinrealpath fs seen path rest stack"
proof (induction fs seen path rest stack rule: joinrealpath.induct)
  case (1 fs seen path)
  show ?case by simp
next
  case (2 fs seen path link rest stack)
  then show ?case by simp
next
  case (3 fs seen path name rest stack)
  from "3.prems" have l: "link_target fs' (path @ [name]) = link_target fs (path @ [name])"
    by (rule link_target_grows)
  show ?case
  proof (cases "name = [] \<or> name = ''.''")
    case True
    with 3 show ?thesis by simp
  next
    case skip: False
    show ?thesis
    proof (cases "name = ''..''")
      case True
      with 3 skip show ?thesis by simp
    next
      case up: False
      show ?thesis
      proof (cases "CHR 0x00 \<in> set name")
        case True
        with skip up show ?thesis by simp
      next
        case nul: False
        show ?thesis
        proof (cases "link_target fs (path @ [name])")
          case None
          with "3.IH" "3.prems" l skip up nul show ?thesis by simp
        next
          case (Some target)
          show ?thesis
          proof (cases "map_of seen (path @ [name])")
            case None
            with "3.IH" "3.prems" l Some skip up nul show ?thesis by simp
          next
            case seen: (Some r)
            show ?thesis
            proof (cases r)
              case None
              with seen l Some skip up nul show ?thesis by simp
            next
              case (Some cached)
              with "3.IH" "3.prems" l seen \<open>link_target fs (path @ [name]) = Some target\<close>
                skip up nul
              show ?thesis by simp
            qed
          qed
        qed
      qed
    qed
  qed
qed

lemma grows_kind:
  "grows fs fs' \<Longrightarrow> lstat fs q = Inr n \<Longrightarrow>
   \<exists>n'. lstat fs' q = Inr n' \<and> kind_of (Inr n') = kind_of (Inr n)"
proof -
  assume g: "grows fs fs'" and n: "lstat fs q = Inr n"
  from n obtain k where k: "kind_of (lstat fs q) = Some k"
    by (cases n) simp_all
  with g have k': "kind_of (lstat fs' q) = Some k" unfolding grows_def by blast
  then obtain n' where "lstat fs' q = Inr n'"
    by (cases "lstat fs' q") simp_all
  with k k' n show ?thesis by simp
qed

lemma namei_step:
  "name \<noteq> [] \<Longrightarrow> name \<noteq> ''.'' \<Longrightarrow> name \<noteq> ''..'' \<Longrightarrow> \<not> long_name name \<Longrightarrow>
   lstat fs cur = Inr (Dir es) \<Longrightarrow>
   namei cr k fs cur (name # rest) =
     (case lstat fs (cur @ [name]) of
        Inl e \<Rightarrow> if cr \<and> rest = [] then Inr (cur @ [name]) else Inl ENOENT
      | Inr (Symlink target) \<Rightarrow>
          (case k of 0 \<Rightarrow> Inl ELOOP
           | Suc k' \<Rightarrow> namei cr k' fs (if isabs target then [] else cur)
                        (split_sep target @ rest))
      | Inr (File d) \<Rightarrow> namei cr k fs (cur @ [name]) rest
      | Inr (Dir ds) \<Rightarrow> namei cr k fs (cur @ [name]) rest)"
  by (simp add: lstat_append split: option.splits node.splits)

text \<open>
  A walk that found its node finds it again in a tree that has grown; a walk that
  found the place for a new file finds the file once it is there.
\<close>

lemma namei_grows_aux:
  "grows fs fs' \<Longrightarrow> namei cr k fs cur rest = Inr c \<Longrightarrow>
   \<not> cr \<or> (\<exists>d. lstat fs' c = Inr (File d)) \<Longrightarrow>
   namei False k fs' cur rest = Inr c"
proof (induction cr k fs cur rest rule: namei.induct)
  case (1 cr k fs cur)
  then show ?case by simp
next
  case (2 cr k fs cur name rest)
  from "2.prems"(2) obtain es where es: "lstat fs cur = Inr (Dir es)"
    by (auto split: sum.splits node.splits)
  with grows_kind [OF "2.prems"(1) es] obtain es' where es': "lstat fs' cur = Inr (Dir es')"
    by (auto simp: kind_of_eq)
  show ?case
  proof (cases "name = [] \<or> name = ''.''")
    case True
    with 2 es es' show ?thesis by simp
  next
    case skip: False
    show ?thesis
    proof (cases "name = ''..''")
      case True
      with 2 es es' skip show ?thesis by simp
    next
      case up: False
      from "2.prems"(2) es skip up have long: "\<not> long_name name"
        by (auto split: if_splits)
      from skip up long have nm: "name \<noteq> []" "name \<noteq> ''.''" "name \<noteq> ''..''" "\<not> long_name name"
        by auto
      show ?thesis
      proof (cases "map_of es name")
        case None
        with "2.prems"(2) es skip up long have c: "cr" "rest = []" "c = cur @ [name]"
          by (auto split: if_splits)
        with "2.prems"(3) obtain d where "lstat fs' (cur @ [name]) = Inr (File d)" by auto
        with c show ?thesis
          by (simp del: namei.simps add: namei_step [OF nm es'] namei.simps(1))
      next
        case (Some n)
        with es have l: "lstat fs (cur @ [name]) = Inr n" by (simp add: lstat_snoc_Dir)
        from grows_kind [OF "2.prems"(1) l] obtain n' where
          l': "lstat fs' (cur @ [name]) = Inr n'" and k: "kind_of (Inr n') = kind_of (Inr n)"
          by blast
        show ?thesis
        proof (cases n)
          case (File d)
          with k obtain d' where n': "n' = File d'" by (auto simp: kind_of_eq)
          from "2.IH" "2.prems" es Some File skip up long l l' es' nm n' show ?thesis
            by (simp del: namei.simps add: namei_step [OF nm es'] namei_step [OF nm es])
        next
          case (Dir ds)
          with k obtain ds' where n': "n' = Dir ds'" by (auto simp: kind_of_eq)
          from "2.IH" "2.prems" es Some Dir skip up long l l' es' nm n' show ?thesis
            by (simp del: namei.simps add: namei_step [OF nm es'] namei_step [OF nm es])
        next
          case (Symlink target)
          with k have n': "n' = Symlink target" by (auto simp: kind_of_eq)
          from "2.prems"(2) es Some Symlink skip up long obtain k' where kk: "k = Suc k'"
            by (cases k) auto
          from "2.IH" "2.prems" es Some Symlink skip up long l l' es' nm n' kk show ?thesis
            by (simp del: namei.simps add: namei_step [OF nm es'] namei_step [OF nm es])
        qed
      qed
    qed
  qed
qed

lemma stat_grows:
  assumes "same_limit W W'" and "stat W p = Inr (c, n)"
  shows "\<exists>n'. stat W' p = Inr (c, n') \<and> kind_of (Inr n') = kind_of (Inr n)"
proof -
  from assms(1) have g: "grows (fs_tree W) (fs_tree W')" and m: "fs_maxlinks W' = fs_maxlinks W"
    by (auto simp: same_limit_def)
  from assms(2) have 0: "\<not> long_path p"
    and 1: "namei False (fs_maxlinks W) (fs_tree W) [] p = Inr c"
    and 2: "lstat (fs_tree W) c = Inr n"
    by (auto simp: stat_def split: sum.splits if_splits)
  from namei_grows_aux [OF g 1] have "namei False (fs_maxlinks W) (fs_tree W') [] p = Inr c"
    by simp
  with grows_kind [OF g 2] m 0 show ?thesis
    by (auto simp: stat_def)
qed

lemma samefile_grows:
  "same_limit W W' \<Longrightarrow> samefile W a b = Inr x \<Longrightarrow> samefile W' a b = Inr x"
proof -
  assume g: "same_limit W W'" and s: "samefile W a b = Inr x"
  from s obtain ca na cb nb where a: "stat W a = Inr (ca, na)" and b: "stat W b = Inr (cb, nb)"
    and x: "x = (ca = cb)"
    by (auto simp: samefile_def path_stat_def split: sum.splits)
  from stat_grows [OF g a] stat_grows [OF g b] x show ?thesis
    by (auto simp: samefile_def path_stat_def)
qed

lemma resolve_grows:
  assumes "same_limit W W'" and "resolve W p = Inr q" and "stat W' q \<noteq> Inl ELOOP"
  shows "resolve W' p = Inr q"
proof -
  from assms(1) have g: "grows (fs_tree W) (fs_tree W')" by (simp add: same_limit_def)
  from assms(2) have j: "joinrealpath (fs_tree W) [] [] p [] = Inr q" and n: "\<not> has_nul q"
    by (auto simp: resolve_def resolve_from_def split: sum.splits if_splits)
  from j g have "joinrealpath (fs_tree W') [] [] p [] = Inr q"
    by (simp add: joinrealpath_grows)
  with n assms(3) show ?thesis by (simp add: resolve_def resolve_from_def)
qed

lemma resolve_path_grows:
  assumes g: "same_limit W W'" and r: "resolve_path W t p = Inr (Some q)"
    and s: "stat W' q \<noteq> Inl ELOOP"
  shows "resolve_path W' t p = Inr (Some q)"
proof -
  let ?a = "if is_absolute (Path p) then root_path t @ pure_names (Path p)
            else current_dir t @ pure_names (Path p)"
  from r have 1: "resolve W ?a = Inr q"
    by (auto simp: resolve_path_def Let_def split: sum.splits if_splits)
  with r have 2: "strict_prefix (root_path t) q \<or> samefile W (root_path t) q = Inr True"
    by (auto simp: resolve_path_def Let_def split: sum.splits if_splits)
  from resolve_grows [OF g 1 s] have 3: "resolve W' ?a = Inr q" .
  from 2 samefile_grows [OF g]
  have "strict_prefix (root_path t) q \<or> samefile W' (root_path t) q = Inr True" by blast
  with 3 show ?thesis by (auto simp: resolve_path_def Let_def)
qed

lemma universal_newlines_id: "CHR 0x0D \<notin> set c \<Longrightarrow> universal_newlines c = c"
  by (induction c rule: universal_newlines.induct) auto

lemma written_not_failed [simp]:
  "msg_write_failed @ x \<noteq> msg_written @ y" "msg_denied \<noteq> msg_written @ y"
  by (simp_all add: msg_write_failed_def msg_written_def msg_denied_def)

lemma write_file_success:
  assumes "fst (write_file W t p c) = Inr (msg_written @ r)"
  obtains q W1 n rel where
    "resolve_path W t p = Inr (Some q)"
    "path_mkdir W (butlast q) = (Inr (), W1)"
    "write_bytes W1 q c = (Inr n, snd (write_file W t p c))"
    "relative_to q (root_path t) = Inr rel"
proof (cases "resolve_path W t p")
  case (Inl e)
  with assms show ?thesis by (simp add: write_file_def)
next
  case (Inr o1)
  show ?thesis
  proof (cases o1)
    case None
    with Inr assms show ?thesis by (simp add: write_file_def)
  next
    case (Some q)
    obtain r1 W1 where m: "path_mkdir W (butlast q) = (r1, W1)" by (cases "path_mkdir W (butlast q)")
    obtain r2 W2 where w: "write_bytes W1 q c = (r2, W2)" by (cases "write_bytes W1 q c")
    from assms Inr Some m w obtain u n rel where
      "r1 = Inr u" "r2 = Inr n" "relative_to q (root_path t) = Inr rel"
      "snd (write_file W t p c) = W2"
      by (auto simp: write_file_def split: sum.splits)
    with Inr Some m w that show ?thesis by simp
  qed
qed

text \<open>After \<open>write_bytes\<close> returned, \<open>stat\<close> of the same path finds the file written.\<close>

lemma write_bytes_file:
  assumes "write_bytes W q c = (Inr n, W')"
  shows "\<exists>c'. stat W' q = Inr (c', File c)"
proof -
  from assms have lp: "\<not> long_path q" by (auto simp: write_bytes_def split: if_splits)
  with assms obtain c' where nm: "namei True (fs_maxlinks W) (fs_tree W) [] q = Inr c'"
    by (auto simp: write_bytes_def split: sum.splits)
  from namei_place [OF nm] have
    ok: "c' = [] \<or> (\<exists>es. lstat (fs_tree W) (butlast c') = Inr (Dir es))"
    by (auto dest: lstat_parent)
  from assms lp nm have W': "W' = W\<lparr>fs_tree := put c' (File c) (fs_tree W)\<rparr>"
    by (auto simp: write_bytes_def split: sum.splits node.splits)
  from write_bytes_grows [of W q c] assms have g: "same_limit W W'" by simp
  from W' lstat_put_same [OF ok] have f: "lstat (fs_tree W') c' = Inr (File c)" by simp
  from g have "grows (fs_tree W) (fs_tree W')" and m: "fs_maxlinks W' = fs_maxlinks W"
    by (auto simp: same_limit_def)
  from namei_grows_aux [OF this(1) nm] f
  have "namei False (fs_maxlinks W) (fs_tree W') [] q = Inr c'" by simp
  with f m lp have "stat W' q = Inr (c', File c)" by (simp add: stat_def)
  then show ?thesis ..
qed

lemma read_file_of_file:
  assumes "resolve_path W t p = Inr (Some q)" and "relative_to q (root_path t) = Inr rel"
    and "stat W q = Inr (c', File c)" and "valid_utf8 c"
  shows "read_file W t p =
           Inr [(''state'', ''ok''), (''path'', ''/'' @ str_rel rel),
                (''file_content'', universal_newlines c)]"
  using assms by (simp add: read_file_def is_dir_def path_exists_def read_text_def)

text \<open>
  C5, as the code has it. When \<open>write_file(p, c)\<close> reports the file written, and
  \<open>c\<close> is UTF-8 text without a carriage return, \<open>read_file(p)\<close> on the file system
  the write left answers exactly \<open>c\<close>, whatever \<open>p\<close> held before.
\<close>

theorem write_then_read:
  assumes "fst (write_file W t p c) = Inr (msg_written @ r)"
    and "valid_utf8 c" and "CHR 0x0D \<notin> set c"
  shows "\<exists>rel. read_file (snd (write_file W t p c)) t p =
           Inr [(''state'', ''ok''), (''path'', rel), (''file_content'', c)]"
proof -
  let ?W2 = "snd (write_file W t p c)"
  from assms(1) obtain q W1 n rel where
    q: "resolve_path W t p = Inr (Some q)" and
    m: "path_mkdir W (butlast q) = (Inr (), W1)" and
    w: "write_bytes W1 q c = (Inr n, ?W2)" and
    rel: "relative_to q (root_path t) = Inr rel"
    by (rule write_file_success)
  from path_mkdir_grows [of W "butlast q"] m have g1: "same_limit W W1" by simp
  from write_bytes_grows [of W1 q c] w have g2: "same_limit W1 ?W2" by simp
  from g1 g2 have g: "same_limit W ?W2" by (rule same_limit_trans)
  from write_bytes_file [OF w] obtain c' where s: "stat ?W2 q = Inr (c', File c)" ..
  then have "stat ?W2 q \<noteq> Inl ELOOP" by simp
  from resolve_path_grows [OF g q this] have q2: "resolve_path ?W2 t p = Inr (Some q)" .
  from read_file_of_file [OF q2 rel s assms(2)] assms(3) show ?thesis
    by (simp add: universal_newlines_id)
qed

theorem write_then_read_witness:
  "fst (write_file demo_fs demo_tool ''f.txt'' ''bye'') =
     Inr (msg_written @ ''f.txt'' @ msg_size @ ''3'' @ msg_bytes) \<and>
   valid_utf8 ''bye'' \<and> CHR 0x0D \<notin> set ''bye'' \<and>
   read_file demo_fs demo_tool ''f.txt'' =
     Inr [(''state'', ''ok''), (''path'', ''/f.txt''), (''file_content'', ''hi'')] \<and>
   read_file (snd (write_file demo_fs demo_tool ''f.txt'' ''bye'')) demo_tool ''f.txt'' =
     Inr [(''state'', ''ok''), (''path'', ''/f.txt''), (''file_content'', ''bye'')]"
proof -
  have 1: "fst (write_file demo_fs demo_tool ''f.txt'' ''bye'') =
           Inr (msg_written @ ''f.txt'' @ msg_size @ ''3'' @ msg_bytes)"
    by code_simp
  have 2: "valid_utf8 ''bye''" by code_simp
  have 3: "CHR 0x0D \<notin> set ''bye''" by simp
  have 4: "read_file demo_fs demo_tool ''f.txt'' =
     Inr [(''state'', ''ok''), (''path'', ''/f.txt''), (''file_content'', ''hi'')]"
    by code_simp
  have 5: "read_file (snd (write_file demo_fs demo_tool ''f.txt'' ''bye'')) demo_tool ''f.txt'' =
     Inr [(''state'', ''ok''), (''path'', ''/f.txt''), (''file_content'', ''bye'')]"
    by code_simp
  from write_then_read [OF 1 2 3] 1 2 3 4 5 show ?thesis by simp
qed

text \<open>
  C5, as stated, fails. \<open>d\<close> is inside the root and is a directory: the write
  fails and the read reports a directory. \<open>f.txt\<close> is a file and the write succeeds,
  but the bytes are written as they are and read back in text mode: \<open>a\r\n\<close> comes
  back as \<open>a\n\<close>.
\<close>

theorem write_then_read_counterexample:
  "resolve_path demo_fs demo_tool ''d'' = Inr (Some [''sandbox'', ''d'']) \<and>
   valid_utf8 ''x'' \<and>
   read_file (snd (write_file demo_fs demo_tool ''d'' ''x'')) demo_tool ''d'' =
     Inr [(''state'', ''error''), (''reason'', msg_read_dir), (''path'', ''/d'')] \<and>
   resolve_path demo_fs demo_tool ''f.txt'' = Inr (Some [''sandbox'', ''f.txt'']) \<and>
   valid_utf8 [CHR ''a'', CHR 0x0D, CHR 0x0A] \<and>
   fst (write_file demo_fs demo_tool ''f.txt'' [CHR ''a'', CHR 0x0D, CHR 0x0A]) =
     Inr (msg_written @ ''f.txt'' @ msg_size @ ''3'' @ msg_bytes) \<and>
   read_file (snd (write_file demo_fs demo_tool ''f.txt'' [CHR ''a'', CHR 0x0D, CHR 0x0A]))
       demo_tool ''f.txt'' =
     Inr [(''state'', ''ok''), (''path'', ''/f.txt''), (''file_content'', [CHR ''a'', CHR 0x0A])]"
  by code_simp

end
